theory Spec2Isabelle
  imports Complex_Main "HOL-Library.Log_Nat"
begin

section \<open>Python values\<close>

text \<open>
  The program is one Python function, \<^verbatim>\<open>get_weather_data\<close> of \<^verbatim>\<open>weather.py\<close>, with the two
  helpers \<^verbatim>\<open>_safe_int\<close> and \<^verbatim>\<open>_safe_float\<close>. It is dynamically typed: its arguments and the
  decoded response body may be any value. The values below are the ones a JSON decoder
  produces, which are also the ones the arguments are taken from.

  A Python string is a sequence of Unicode code points, so \<open>pystr\<close> is a list of code
  point numbers; \<open>ascii\<close> embeds an ASCII literal. A float is its sign and the exact
  magnitude of the binary64 number, or an infinity, or a NaN. A dict is an association
  list read from the left (\<open>map_of\<close>); its keys are strings, as in JSON.
\<close>

type_synonym pystr = "nat list"

datatype pyfloat = Finite bool rat | Infinity bool | NaN

datatype pyval =
    PNone
  | PBool bool
  | PInt int
  | PFloat pyfloat
  | PStr pystr
  | PList "pyval list"
  | PDict "(pystr \<times> pyval) list"

text \<open>
  The exceptions the code can meet. \<open>RequestFailed\<close> stands for whatever the three
  statements of the \<^verbatim>\<open>try\<close> block raise (a timeout, a connection error, an HTTP error
  status, a body that is no JSON).
\<close>

datatype exn =
    AttributeError
  | TypeError
  | ValueError
  | OverflowError
  | ZeroDivisionError
  | UnicodeEncodeError
  | RequestFailed

definition ascii :: "string \<Rightarrow> pystr" where
  "ascii s = map of_char s"

text \<open>Sequencing of steps that may raise: the first exception ends the computation.\<close>

fun bind :: "exn + 'a \<Rightarrow> ('a \<Rightarrow> exn + 'b) \<Rightarrow> exn + 'b" where
  "bind (Inl e) f = Inl e"
| "bind (Inr x) f = f x"

fun traverse :: "('a \<Rightarrow> exn + 'b) \<Rightarrow> 'a list \<Rightarrow> exn + 'b list" where
  "traverse f [] = Inr []"
| "traverse f (x # xs) = bind (f x) (\<lambda>y. bind (traverse f xs) (\<lambda>ys. Inr (y # ys)))"

section \<open>Strings: white space, digits, \<^verbatim>\<open>str.strip\<close>\<close>

text \<open>
  \<^verbatim>\<open>str.strip()\<close> removes the characters for which \<^verbatim>\<open>str.isspace\<close> holds from both ends.
\<close>

definition py_isspace :: "nat \<Rightarrow> bool" where
  "py_isspace c \<longleftrightarrow>
     (9 \<le> c \<and> c \<le> 13) \<or> (28 \<le> c \<and> c \<le> 32) \<or> c = 133 \<or> c = 160 \<or> c = 5760 \<or>
     (8192 \<le> c \<and> c \<le> 8202) \<or> c = 8232 \<or> c = 8233 \<or> c = 8239 \<or> c = 8287 \<or>
     c = 12288"

definition strip :: "pystr \<Rightarrow> pystr" where
  "strip s = rev (dropWhile py_isspace (rev (dropWhile py_isspace s)))"

text \<open>
  The number parsers of \<^verbatim>\<open>int\<close> and \<^verbatim>\<open>float\<close> first map every non-ASCII white space
  character to a blank and every non-ASCII decimal digit to its ASCII digit, and any
  other non-ASCII character to \<^verbatim>\<open>?\<close> (the C code also cuts the string there; the parsers
  reject \<^verbatim>\<open>?\<close> wherever it stands). \<open>decimal_runs\<close> lists the first code point of each run
  of ten decimal digits (Unicode 14.0). After that only the white space of C counts.
\<close>

definition decimal_runs :: "nat list" where
  "decimal_runs =
    [1632, 1776, 1984, 2406, 2534, 2662, 2790, 2918, 3046, 3174, 3302, 3430, 3558,
     3664, 3792, 3872, 4160, 4240, 6112, 6160, 6470, 6608, 6784, 6800, 6992, 7088, 7232,
     7248, 42528, 43216, 43264, 43472, 43504, 43600, 44016, 65296, 66720, 68912, 69734,
     69872, 69942, 70096, 70384, 70736, 70864, 71248, 71360, 71472, 71904, 72016, 72784,
     73040, 73120, 92768, 92864, 93008, 120782, 120792, 120802, 120812, 120822, 123200,
     123632, 125264, 130032]"

definition to_decimal :: "nat \<Rightarrow> nat option" where
  "to_decimal c =
     (case filter (\<lambda>b. b \<le> c \<and> c < b + 10) decimal_runs of
        [] \<Rightarrow> None
      | b # _ \<Rightarrow> Some (c - b))"

definition transform_char :: "nat \<Rightarrow> nat" where
  "transform_char c =
     (if c < 127 then c
      else if py_isspace c then 32
      else (case to_decimal c of Some d \<Rightarrow> 48 + d | None \<Rightarrow> 63))"

definition c_isspace :: "nat \<Rightarrow> bool" where
  "c_isspace c \<longleftrightarrow> (9 \<le> c \<and> c \<le> 13) \<or> c = 32"

definition is_digit :: "nat \<Rightarrow> bool" where
  "is_digit c \<longleftrightarrow> 48 \<le> c \<and> c \<le> 57"

text \<open>The number a string of ASCII digits denotes, and the digits of a number.\<close>

fun int_of_digits :: "int \<Rightarrow> pystr \<Rightarrow> int" where
  "int_of_digits acc [] = acc"
| "int_of_digits acc (c # cs) = int_of_digits (10 * acc + (int c - 48)) cs"

function digits_of :: "int \<Rightarrow> pystr" where
  "digits_of n =
     (if n < 10 then [nat (48 + n)] else digits_of (n div 10) @ [nat (48 + n mod 10)])"
  by pat_completeness auto
termination
  by (relation "measure nat") auto

declare digits_of.simps [simp del]

section \<open>\<^verbatim>\<open>int(s)\<close> and \<^verbatim>\<open>str(n)\<close>\<close>

text \<open>
  \<^verbatim>\<open>int(s)\<close> for a string, base ten: optional white space, an optional sign, decimal
  digits with single underscores between them, optional white space. Anything else
  raises ValueError, which is \<open>None\<close> here. (The interpreter's configurable limit on
  the number of digits of such a conversion is not modelled.)
\<close>

fun underscores_ok :: "pystr \<Rightarrow> bool" where
  "underscores_ok [] = False"
| "underscores_ok [c] = is_digit c"
| "underscores_ok (c # d # cs) =
     (if is_digit c then underscores_ok (d # cs)
      else is_digit d \<and> underscores_ok (d # cs))"

definition int_of_str :: "pystr \<Rightarrow> int option" where
  "int_of_str s =
     (let t = dropWhile c_isspace (map transform_char s);
          neg = (t \<noteq> [] \<and> hd t = 45);
          u = (if t \<noteq> [] \<and> (hd t = 43 \<or> hd t = 45) then tl t else t);
          body = takeWhile (\<lambda>c. is_digit c \<or> c = 95) u;
          rest = dropWhile (\<lambda>c. is_digit c \<or> c = 95) u
      in if body \<noteq> [] \<and> is_digit (hd body) \<and> underscores_ok body \<and> list_all c_isspace rest
         then Some ((if neg then - 1 else 1) * int_of_digits 0 (filter is_digit body))
         else None)"

definition str_of_int :: "int \<Rightarrow> pystr" where
  "str_of_int n = (if n < 0 then [45] else []) @ digits_of \<bar>n\<bar>"

section \<open>Floats\<close>

text \<open>
  A binary64 number has 53 bits of precision and exponents down to \<open>2\<^sup>-\<^sup>1\<^sup>0\<^sup>7\<^sup>4\<close>; the
  numbers of magnitude \<open>2\<^sup>1\<^sup>0\<^sup>2\<^sup>4\<close> and more are not representable. \<open>round_binary64 x\<close> is
  the representable number nearest to the rational \<open>x \<ge> 0\<close>, ties going to the even
  mantissa, and \<open>None\<close> when that number would be too large.
\<close>

definition ipow :: "int \<Rightarrow> int \<Rightarrow> rat" where
  "ipow b e = (if 0 \<le> e then of_int b ^ nat e else 1 / of_int b ^ nat (- e))"

definition round_half_even :: "rat \<Rightarrow> int" where
  "round_half_even x =
     (let f = \<lfloor>x\<rfloor>; r = x - of_int f
      in if r < 1 / 2 then f
         else if 1 / 2 < r then f + 1
         else if even f then f else f + 1)"

text \<open>
  \<open>ndigits b n\<close> is the number of digits of \<open>n > 0\<close> in base \<open>b\<close>, and \<open>ilog b x\<close> the
  integer \<open>k\<close> with \<open>b\<^sup>k \<le> x < b\<^sup>k\<^sup>+\<^sup>1\<close>, for a rational \<open>x > 0\<close>.
\<close>

function ndigits :: "int \<Rightarrow> int \<Rightarrow> int" where
  "ndigits b n = (if 0 < n \<and> 1 < b then ndigits b (n div b) + 1 else 0)"
  by pat_completeness auto
termination
  by (relation "measure (\<lambda>(b, n). nat n)") (auto simp: int_div_less_self)

declare ndigits.simps [simp del]

definition ilog :: "int \<Rightarrow> rat \<Rightarrow> int" where
  "ilog b x =
     (case quotient_of x of (p, q) \<Rightarrow>
        let d = ndigits b p - ndigits b q
        in if x < ipow b d then d - 1 else d)"

definition round_binary64 :: "rat \<Rightarrow> rat option" where
  "round_binary64 x =
     (if x = 0 then Some 0
      else let e = max (ilog 2 x - 52) (- 1074);
               y = of_int (round_half_even (x / ipow 2 e)) * ipow 2 e
           in if 2 ^ 1024 \<le> y then None else Some y)"

text \<open>
  \<^verbatim>\<open>a / b\<close> on two ints is the correctly rounded quotient; it raises OverflowError when
  the quotient is too large for a float.
\<close>

definition int_truediv :: "int \<Rightarrow> int \<Rightarrow> exn + pyfloat" where
  "int_truediv a b =
     (if b = 0 then Inl ZeroDivisionError
      else case round_binary64 (of_int \<bar>a\<bar> / of_int \<bar>b\<bar>) of
             None \<Rightarrow> Inl OverflowError
           | Some y \<Rightarrow> Inr (Finite ((a < 0) \<noteq> (b < 0)) y))"

text \<open>\<^verbatim>\<open>round(x)\<close> of a float, with no second argument: the nearest int, ties to even.\<close>

fun py_round :: "pyfloat \<Rightarrow> exn + int" where
  "py_round (Finite s m) = Inr (if s then - round_half_even m else round_half_even m)"
| "py_round (Infinity s) = Inl OverflowError"
| "py_round NaN = Inl ValueError"

text \<open>\<^verbatim>\<open>int(x)\<close> of a float truncates towards zero.\<close>

fun float_trunc :: "pyfloat \<Rightarrow> exn + int" where
  "float_trunc (Finite s m) = Inr (if s then - \<lfloor>m\<rfloor> else \<lfloor>m\<rfloor>)"
| "float_trunc (Infinity s) = Inl OverflowError"
| "float_trunc NaN = Inl ValueError"

subsection \<open>\<^verbatim>\<open>str(x)\<close> of a float\<close>

text \<open>
  \<^verbatim>\<open>repr\<close> prints the shortest decimal number that reads back as the same float, and
  among several of that length the nearest. \<open>candidate x n\<close> looks among the numbers of
  \<open>n\<close> significant digits; \<open>shortest x n fuel\<close> tries \<open>n\<close>, \<open>n + 1\<close>, ... and after
  \<open>fuel\<close> failures takes the nearest number of that length (seventeen digits always
  read back). The result \<open>(d, e)\<close> stands for \<open>d \<times> 10\<^sup>e\<close>.
\<close>

definition nearest :: "rat \<Rightarrow> rat \<Rightarrow> int \<Rightarrow> int" where
  "nearest x s lo =
     (let dlo = x - of_int lo * s; dhi = of_int (lo + 1) * s - x
      in if dlo < dhi then lo else if dhi < dlo then lo + 1
         else if even lo then lo else lo + 1)"

definition candidate :: "rat \<Rightarrow> nat \<Rightarrow> (int \<times> int) option" where
  "candidate x n =
     (let e = ilog 10 x - int n + 1; s = ipow 10 e; lo = \<lfloor>x / s\<rfloor>;
          oklo = (round_binary64 (of_int lo * s) = Some x);
          okhi = (round_binary64 (of_int (lo + 1) * s) = Some x)
      in if oklo \<and> okhi then Some (nearest x s lo, e)
         else if oklo then Some (lo, e)
         else if okhi then Some (lo + 1, e)
         else None)"

fun shortest :: "rat \<Rightarrow> nat \<Rightarrow> nat \<Rightarrow> int \<times> int" where
  "shortest x n 0 =
     (let e = ilog 10 x - int n + 1 in (nearest x (ipow 10 e) \<lfloor>x / ipow 10 e\<rfloor>, e))"
| "shortest x n (Suc fuel) =
     (case candidate x n of Some r \<Rightarrow> r | None \<Rightarrow> shortest x (Suc n) fuel)"

fun strip_zeros :: "nat \<Rightarrow> int \<Rightarrow> int \<Rightarrow> int \<times> int" where
  "strip_zeros 0 d e = (d, e)"
| "strip_zeros (Suc fuel) d e =
     (if 0 < d \<and> d mod 10 = 0 then strip_zeros fuel (d div 10) (e + 1) else (d, e))"

text \<open>
  The digits \<open>ds\<close> with the decimal point after the first \<open>decpt\<close> of them: exponent
  notation when \<open>decpt \<le> -4\<close> or \<open>decpt > 16\<close>, else positional with at least one digit
  on each side of the point.
\<close>

definition format_repr :: "pystr \<Rightarrow> int \<Rightarrow> pystr" where
  "format_repr ds decpt =
     (if decpt \<le> - 4 \<or> 16 < decpt then
        (let ex = decpt - 1; exd = digits_of \<bar>ex\<bar>
         in (if length ds \<le> 1 then ds else hd ds # 46 # tl ds)
            @ [101, if ex < 0 then 45 else 43]
            @ (if length exd < 2 then 48 # exd else exd))
      else if decpt \<le> 0 then [48, 46] @ replicate (nat (- decpt)) 48 @ ds
      else if nat decpt < length ds then take (nat decpt) ds @ [46] @ drop (nat decpt) ds
      else ds @ replicate (nat decpt - length ds) 48 @ [46, 48])"

fun float_repr :: "pyfloat \<Rightarrow> pystr" where
  "float_repr NaN = ascii ''nan''"
| "float_repr (Infinity s) = (if s then ascii ''-inf'' else ascii ''inf'')"
| "float_repr (Finite s m) =
     (if s then [45] else []) @
     (if m = 0 then ascii ''0.0''
      else case shortest m 1 16 of (d, e) \<Rightarrow>
        (case strip_zeros 400 d e of (d', e') \<Rightarrow>
           format_repr (digits_of d') (int (length (digits_of d')) + e')))"

subsection \<open>\<^verbatim>\<open>float(s)\<close> of a string\<close>

text \<open>
  Optional white space, an optional sign, then \<^verbatim>\<open>inf\<close>, \<^verbatim>\<open>infinity\<close> or \<^verbatim>\<open>nan\<close> in any case,
  or decimal digits with an optional point and an optional exponent; optional white
  space. Underscores may stand between two digits. The decimal number is rounded to the
  nearest float, a too large one to an infinity.
\<close>

fun float_underscores_ok :: "nat \<Rightarrow> pystr \<Rightarrow> bool" where
  "float_underscores_ok prev [] = (prev \<noteq> 95)"
| "float_underscores_ok prev (c # cs) =
     (if c = 95 then is_digit prev \<and> float_underscores_ok c cs
      else if prev = 95 then is_digit c \<and> float_underscores_ok c cs
      else float_underscores_ok c cs)"

definition lower :: "nat \<Rightarrow> nat" where
  "lower c = (if 65 \<le> c \<and> c \<le> 90 then c + 32 else c)"

definition parse_inf_nan :: "bool \<Rightarrow> pystr \<Rightarrow> (pyfloat \<times> pystr) option" where
  "parse_inf_nan neg u =
     (if map lower (take 3 u) = ascii ''inf'' then
        Some (Infinity neg,
          if map lower (take 5 (drop 3 u)) = ascii ''inity'' then drop 8 u else drop 3 u)
      else if map lower (take 3 u) = ascii ''nan'' then Some (NaN, drop 3 u)
      else None)"

definition parse_decimal :: "bool \<Rightarrow> pystr \<Rightarrow> (pyfloat \<times> pystr) option" where
  "parse_decimal neg u =
     (let ip = takeWhile is_digit u; u1 = dropWhile is_digit u;
          dot = (u1 \<noteq> [] \<and> hd u1 = 46);
          fp = (if dot then takeWhile is_digit (tl u1) else []);
          u2 = (if dot then dropWhile is_digit (tl u1) else u1);
          hase = (u2 \<noteq> [] \<and> (hd u2 = 101 \<or> hd u2 = 69));
          u3 = (if hase then tl u2 else []);
          eneg = (u3 \<noteq> [] \<and> hd u3 = 45);
          u4 = (if u3 \<noteq> [] \<and> (hd u3 = 43 \<or> hd u3 = 45) then tl u3 else u3);
          ed = takeWhile is_digit u4;
          ex = (if ed = [] then 0
                else (if eneg then - 1 else 1) * int_of_digits 0 ed);
          rest = (if ed = [] then u2 else dropWhile is_digit u4)
      in if ip @ fp = [] then None
         else Some
           (case round_binary64
                   (of_int (int_of_digits 0 (ip @ fp)) * ipow 10 (ex - int (length fp))) of
              None \<Rightarrow> Infinity neg
            | Some y \<Rightarrow> Finite neg y,
            rest))"

definition float_of_str :: "pystr \<Rightarrow> pyfloat option" where
  "float_of_str s =
     (let t = map transform_char s in
      if 95 \<in> set t \<and> \<not> float_underscores_ok 0 t then None
      else
        let u = dropWhile c_isspace (filter (\<lambda>c. c \<noteq> 95) t);
            neg = (u \<noteq> [] \<and> hd u = 45);
            v = (if u \<noteq> [] \<and> (hd u = 43 \<or> hd u = 45) then tl u else u)
        in case (case parse_decimal neg v of
                   Some r \<Rightarrow> Some r
                 | None \<Rightarrow> parse_inf_nan neg v) of
             None \<Rightarrow> None
           | Some (x, rest) \<Rightarrow> if list_all c_isspace rest then Some x else None)"

section \<open>Built-in operations on values\<close>

text \<open>Truth value testing, as \<^verbatim>\<open>x or []\<close> and \<^verbatim>\<open>not x\<close> use it.\<close>

fun py_truthy :: "pyval \<Rightarrow> bool" where
  "py_truthy PNone = False"
| "py_truthy (PBool b) = b"
| "py_truthy (PInt n) = (n \<noteq> 0)"
| "py_truthy (PFloat (Finite s m)) = (m \<noteq> 0)"
| "py_truthy (PFloat (Infinity s)) = True"
| "py_truthy (PFloat NaN) = True"
| "py_truthy (PStr s) = (s \<noteq> [])"
| "py_truthy (PList xs) = (xs \<noteq> [])"
| "py_truthy (PDict kvs) = (kvs \<noteq> [])"

definition or_empty :: "pyval \<Rightarrow> pyval" where
  "or_empty v = (if py_truthy v then v else PList [])"

text \<open>
  \<^verbatim>\<open>str(v)\<close>: a string is itself, every other value is printed as \<^verbatim>\<open>repr\<close> prints it. Inside
  a list or dict a string stands in quotes; of its escapes only those of the quote, the
  backslash, tab, newline and return are modelled (the numeric escapes of unprintable
  characters are not).
\<close>

definition repr_str :: "pystr \<Rightarrow> pystr" where
  "repr_str s =
     (let q = (if 39 \<in> set s \<and> 34 \<notin> set s then 34 else 39)
      in [q] @ concat (map (\<lambda>c. if c = q \<or> c = 92 then [92, c]
                                  else if c = 9 then [92, 116]
                                  else if c = 10 then [92, 110]
                                  else if c = 13 then [92, 114]
                                  else [c]) s) @ [q])"

fun join :: "pystr \<Rightarrow> pystr list \<Rightarrow> pystr" where
  "join sep [] = []"
| "join sep [x] = x"
| "join sep (x # y # ys) = x @ sep @ join sep (y # ys)"

fun py_repr :: "pyval \<Rightarrow> pystr" where
  "py_repr PNone = ascii ''None''"
| "py_repr (PBool b) = (if b then ascii ''True'' else ascii ''False'')"
| "py_repr (PInt n) = str_of_int n"
| "py_repr (PFloat x) = float_repr x"
| "py_repr (PStr s) = repr_str s"
| "py_repr (PList xs) = [91] @ join (ascii '', '') (map py_repr xs) @ [93]"
| "py_repr (PDict kvs) =
     [123] @ join (ascii '', '') (map (\<lambda>(k, v). repr_str k @ ascii '': '' @ py_repr v) kvs)
     @ [125]"

definition py_str :: "pyval \<Rightarrow> pystr" where
  "py_str v = (case v of PStr s \<Rightarrow> s | _ \<Rightarrow> py_repr v)"

text \<open>\<^verbatim>\<open>int(v)\<close>, as applied to \<^verbatim>\<open>forecast_days\<close>.\<close>

fun py_int :: "pyval \<Rightarrow> exn + int" where
  "py_int PNone = Inl TypeError"
| "py_int (PBool b) = Inr (if b then 1 else 0)"
| "py_int (PInt n) = Inr n"
| "py_int (PFloat x) = float_trunc x"
| "py_int (PStr s) = (case int_of_str s of None \<Rightarrow> Inl ValueError | Some n \<Rightarrow> Inr n)"
| "py_int (PList xs) = Inl TypeError"
| "py_int (PDict kvs) = Inl TypeError"

text \<open>\<^verbatim>\<open>v.get(key)\<close>: only a dict has the method; a missing key gives \<^verbatim>\<open>None\<close>.\<close>

fun py_get :: "pyval \<Rightarrow> pystr \<Rightarrow> exn + pyval" where
  "py_get (PDict kvs) key = Inr (case map_of kvs key of None \<Rightarrow> PNone | Some v \<Rightarrow> v)"
| "py_get v key = Inl AttributeError"

text \<open>\<^verbatim>\<open>len(v)\<close>, \<^verbatim>\<open>v[:n]\<close> and the elements a \<^verbatim>\<open>for\<close> loop over \<^verbatim>\<open>v\<close> visits.\<close>

fun py_len :: "pyval \<Rightarrow> exn + nat" where
  "py_len (PStr s) = Inr (length s)"
| "py_len (PList xs) = Inr (length xs)"
| "py_len (PDict kvs) = Inr (length (remdups (map fst kvs)))"
| "py_len v = Inl TypeError"

definition slice_end :: "int \<Rightarrow> nat \<Rightarrow> nat" where
  "slice_end n len = (if n < 0 then nat (int len + n) else nat n)"

fun py_slice_to :: "pyval \<Rightarrow> int \<Rightarrow> exn + pyval" where
  "py_slice_to (PStr s) n = Inr (PStr (take (slice_end n (length s)) s))"
| "py_slice_to (PList xs) n = Inr (PList (take (slice_end n (length xs)) xs))"
| "py_slice_to v n = Inl TypeError"

fun py_iter :: "pyval \<Rightarrow> exn + pyval list" where
  "py_iter (PStr s) = Inr (map (\<lambda>c. PStr [c]) s)"
| "py_iter (PList xs) = Inr xs"
| "py_iter (PDict kvs) = Inr (map PStr (remdups (map fst kvs)))"
| "py_iter v = Inl TypeError"

section \<open>\<^verbatim>\<open>urllib.parse.quote\<close>\<close>

text \<open>
  The string is encoded in UTF-8 (a surrogate code point cannot be, UnicodeEncodeError)
  and every byte that is not a letter, a digit or one of \<^verbatim>\<open>_.-~/\<close> is written as \<^verbatim>\<open>%XX\<close>.
\<close>

definition utf8_char :: "nat \<Rightarrow> exn + nat list" where
  "utf8_char c =
     (if c < 128 then Inr [c]
      else if c < 2048 then Inr [192 + c div 64, 128 + c mod 64]
      else if c < 65536 then
        (if 55296 \<le> c \<and> c \<le> 57343 then Inl UnicodeEncodeError
         else Inr [224 + c div 4096, 128 + c div 64 mod 64, 128 + c mod 64])
      else if c < 1114112 then
        Inr [240 + c div 262144, 128 + c div 4096 mod 64, 128 + c div 64 mod 64,
             128 + c mod 64]
      else Inl UnicodeEncodeError)"

definition always_safe :: "nat \<Rightarrow> bool" where
  "always_safe b \<longleftrightarrow>
     (65 \<le> b \<and> b \<le> 90) \<or> (97 \<le> b \<and> b \<le> 122) \<or> (48 \<le> b \<and> b \<le> 57) \<or>
     b = 95 \<or> b = 46 \<or> b = 45 \<or> b = 126"

definition hex_digit :: "nat \<Rightarrow> nat" where
  "hex_digit d = (if d < 10 then 48 + d else 55 + d)"

definition quote_byte :: "nat \<Rightarrow> pystr" where
  "quote_byte b =
     (if always_safe b \<or> b = 47 then [b] else [37, hex_digit (b div 16), hex_digit (b mod 16)])"

definition quote :: "pystr \<Rightarrow> exn + pystr" where
  "quote s = bind (traverse utf8_char s) (\<lambda>bs. Inr (concat (map quote_byte (concat bs))))"

section \<open>The program\<close>

text \<open>
  \<^verbatim>\<open>_safe_int\<close> and \<^verbatim>\<open>_safe_float\<close>: the \<^verbatim>\<open>try\<close> turns every exception of the conversion into
  \<^verbatim>\<open>None\<close>.
\<close>

definition safe_int :: "pyval \<Rightarrow> int option" where
  "safe_int v = int_of_str (py_str v)"

definition safe_float :: "pyval \<Rightarrow> pyfloat option" where
  "safe_float v = float_of_str (py_str v)"

text \<open>
  One entry of the returned forecast list. The keys of the source's dict are \<^verbatim>\<open>date\<close>,
  \<^verbatim>\<open>temp\<close>, \<^verbatim>\<open>humidity\<close>, \<^verbatim>\<open>wind\<close> and \<^verbatim>\<open>precipitation\<close>, the last four with an emoji appended.
\<close>

record aggregated_day =
  date :: pyval
  temp :: "int option"
  humidity :: "int option"
  wind :: "int option"
  precipitation :: "pyfloat option"

record forecast_result =
  location :: pystr
  forecast :: "aggregated_day list"

text \<open>
  The list comprehension
  \<^verbatim>\<open>[_safe_int(h.get(key)) for h in hourly if h.get(key) is not None]\<close>, over the elements
  of \<^verbatim>\<open>hourly\<close> already listed.
\<close>

fun readings :: "pystr \<Rightarrow> pyval list \<Rightarrow> exn + int option list" where
  "readings key [] = Inr []"
| "readings key (h # hs) =
     bind (py_get h key) (\<lambda>v.
     bind (readings key hs) (\<lambda>r.
     Inr (if v \<noteq> PNone then safe_int v # r else r)))"

definition valid :: "int option list \<Rightarrow> int list" where
  "valid xs = map the (filter (\<lambda>x. x \<noteq> None) xs)"

text \<open>\<^verbatim>\<open>round(sum(valid_h) / len(valid_h)) if valid_h else None\<close>\<close>

definition average :: "int list \<Rightarrow> exn + int option" where
  "average valid_h =
     (if valid_h \<noteq> [] then
        bind (int_truediv (sum_list valid_h) (int (length valid_h))) (\<lambda>q.
        bind (py_round q) (\<lambda>r. Inr (Some r)))
      else Inr None)"

text \<open>\<^verbatim>\<open>max(valid_w) if valid_w else None\<close>\<close>

definition maximum :: "int list \<Rightarrow> int option" where
  "maximum valid_w = (if valid_w \<noteq> [] then Some (foldl max (hd valid_w) (tl valid_w)) else None)"

text \<open>The body of the \<^verbatim>\<open>for\<close> loop: one daily entry to one entry of the forecast.\<close>

definition aggregate_day :: "pyval \<Rightarrow> exn + aggregated_day" where
  "aggregate_day day =
     bind (py_get day (ascii ''date'')) (\<lambda>d.
     bind (py_get day (ascii ''avgtempC'')) (\<lambda>t.
     bind (py_get day (ascii ''totalprecipMM'')) (\<lambda>p.
     bind (py_get day (ascii ''hourly'')) (\<lambda>h.
     bind (py_iter (or_empty h)) (\<lambda>hourly.
     bind (readings (ascii ''humidity'') hourly) (\<lambda>humidities.
     bind (readings (ascii ''windspeedKmph'') hourly) (\<lambda>winds_kmph.
     bind (average (valid humidities)) (\<lambda>avg_humidity.
     Inr \<lparr>date = d, temp = safe_int t, humidity = avg_humidity,
          wind = maximum (valid winds_kmph), precipitation = safe_float p\<rparr>))))))))"

text \<open>
  What a call does and gives: the URLs it requested, the diagnostics it printed, and
  its outcome, an exception that reaches the caller (\<open>Inl\<close>) or the returned value
  (\<open>Inr\<close>; \<open>None\<close> is Python's \<^verbatim>\<open>None\<close>).
\<close>

datatype diagnostic = InvalidLocation | FetchError exn | UnexpectedShape

record run =
  requests :: "pystr list"
  printed :: "diagnostic list"
  outcome :: "exn + forecast_result option"

definition num_days_of :: "pyval \<Rightarrow> int" where
  "num_days_of forecast_days =
     (case py_int forecast_days of Inl e \<Rightarrow> 5 | Inr d \<Rightarrow> max 1 d)"

text \<open>The code after the \<^verbatim>\<open>try\<close> block, from the decoded body \<open>data\<close> on.\<close>

definition reduce_body :: "pystr \<Rightarrow> pyval \<Rightarrow> pyval \<Rightarrow> diagnostic list \<times> (exn + forecast_result option)" where
  "reduce_body loc forecast_days data =
     (case py_get data (ascii ''weather'') of
        Inl e \<Rightarrow> ([], Inl e)
      | Inr w \<Rightarrow>
          let days = or_empty w in
          if \<not> py_truthy days then ([UnexpectedShape], Inr None)
          else
            ([],
             bind (py_len days) (\<lambda>n.
             bind (py_slice_to days (min (num_days_of forecast_days) (int n))) (\<lambda>sl.
             bind (py_iter sl) (\<lambda>ds.
             bind (traverse aggregate_day ds) (\<lambda>fc.
             Inr (Some \<lparr>location = loc, forecast = fc\<rparr>)))))))"

text \<open>
  \<open>http url\<close> is what the \<^verbatim>\<open>try\<close> block gives for the URL: the decoded body, or the
  exception of \<^verbatim>\<open>requests.get\<close>, \<^verbatim>\<open>raise_for_status\<close> or \<^verbatim>\<open>response.json\<close>.
\<close>

definition get_weather_data :: "(pystr \<Rightarrow> exn + pyval) \<Rightarrow> pyval \<Rightarrow> pyval \<Rightarrow> run" where
  "get_weather_data http loc forecast_days =
     (case loc of
        PStr s \<Rightarrow>
          if strip s = [] then
            \<lparr>requests = [], printed = [InvalidLocation], outcome = Inr None\<rparr>
          else
            (case quote (strip s) of
               Inl e \<Rightarrow> \<lparr>requests = [], printed = [], outcome = Inl e\<rparr>
             | Inr q \<Rightarrow>
                 let url = ascii ''https://wttr.in/'' @ q @ ascii ''?format=j1'' in
                 (case http url of
                    Inl exc \<Rightarrow>
                      \<lparr>requests = [url], printed = [FetchError exc], outcome = Inr None\<rparr>
                  | Inr data \<Rightarrow>
                      (case reduce_body s forecast_days data of
                         (msgs, res) \<Rightarrow>
                           \<lparr>requests = [url], printed = msgs, outcome = res\<rparr>)))
      | _ \<Rightarrow> \<lparr>requests = [], printed = [InvalidLocation], outcome = Inr None\<rparr>)"

section \<open>Specification-side notions and example data\<close>

text \<open>
  The day count the specification asks for: the requested count parsed as an integer,
  5 when it does not parse, clamped to at least 1 and at most the \<open>N\<close> entries available.
\<close>

definition resolved_days :: "pyval \<Rightarrow> nat \<Rightarrow> nat" where
  "resolved_days forecast_days N =
     (case py_int forecast_days of
        Inr d \<Rightarrow> nat (min (max d 1) (int N))
      | Inl e \<Rightarrow> min 5 N)"

definition url_of :: "pystr \<Rightarrow> pystr" where
  "url_of q = ascii ''https://wttr.in/'' @ q @ ascii ''?format=j1''"

text \<open>
  The words of the specification for the two aggregates. The present values of a key
  are those of the hourly entries that have the key with a value other than \<^verbatim>\<open>None\<close>;
  the integer-coercible ones among them are those \<^verbatim>\<open>_safe_int\<close> accepts. \<open>nearest_int x k\<close>
  says that \<open>k\<close> is \<open>x\<close> rounded to the nearest integer, a tie going to the even one.
\<close>

definition present :: "pystr \<Rightarrow> pyval list \<Rightarrow> pyval list" where
  "present key hs =
     filter (\<lambda>v. v \<noteq> PNone) (map (\<lambda>h. case py_get h key of Inr v \<Rightarrow> v | Inl e \<Rightarrow> PNone) hs)"

definition coercible :: "pyval list \<Rightarrow> int list" where
  "coercible vs = map (\<lambda>v. the (safe_int v)) (filter (\<lambda>v. safe_int v \<noteq> None) vs)"

definition mean :: "int list \<Rightarrow> rat" where
  "mean xs = of_int (sum_list xs) / of_int (int (length xs))"

definition nearest_int :: "rat \<Rightarrow> int \<Rightarrow> bool" where
  "nearest_int x k \<longleftrightarrow>
     \<bar>of_int k - x\<bar> \<le> 1 / 2 \<and> (\<bar>of_int k - x\<bar> < 1 / 2 \<or> even k)"







text \<open>A response body in the shape the service sends, all numbers as strings.\<close>

definition hour_entry :: "pyval \<Rightarrow> pyval \<Rightarrow> pyval" where
  "hour_entry h w = PDict [(ascii ''humidity'', h), (ascii ''windspeedKmph'', w)]"

definition example_hourly :: "pyval list" where
  "example_hourly =
     [hour_entry (PStr (ascii ''50'')) (PStr (ascii ''10'')),
      hour_entry (PStr (ascii ''60'')) (PStr (ascii ''25'')),
      hour_entry (PStr (ascii ''70'')) (PStr (ascii ''15''))]"

definition example_day :: "pystr \<Rightarrow> pyval" where
  "example_day d =
     PDict [(ascii ''date'', PStr d),
            (ascii ''avgtempC'', PStr (ascii ''n/a'')),
            (ascii ''totalprecipMM'', PStr (ascii ''n/a'')),
            (ascii ''hourly'', PList example_hourly)]"

definition example_days :: "pyval list" where
  "example_days =
     [example_day (ascii ''2024-05-01''), example_day (ascii ''2024-05-02''),
      example_day (ascii ''2024-05-03'')]"

definition example_body :: pyval where
  "example_body = PDict [(ascii ''weather'', PList example_days)]"

text \<open>A day whose only humidity reading is \<open>2\<^sup>5\<^sup>3 + 1\<close>.\<close>

definition large_reading_day :: pyval where
  "large_reading_day =
     PDict [(ascii ''hourly'', PList [hour_entry (PInt 9007199254740993) PNone])]"



section \<open>Basic facts\<close>

lemma bind_Inr_iff: "bind m f = Inr y \<longleftrightarrow> (\<exists>x. m = Inr x \<and> f x = Inr y)"
  by (cases m) auto

lemma bind_Inl_iff: "bind m f = Inl e \<longleftrightarrow> m = Inl e \<or> (\<exists>x. m = Inr x \<and> f x = Inl e)"
  by (cases m) auto

lemma traverse_Inr:
  "traverse f xs = Inr ys \<Longrightarrow> length ys = length xs \<and> (\<forall>i<length xs. f (xs ! i) = Inr (ys ! i))"
proof (induction xs arbitrary: ys)
  case Nil
  then show ?case by simp
next
  case (Cons x xs)
  from Cons.prems obtain y zs where y: "f x = Inr y" and zs: "traverse f xs = Inr zs"
    and ys: "ys = y # zs"
    by (auto simp: bind_Inr_iff)
  from Cons.IH [OF zs] y ys show ?case
    by (auto simp: nth_Cons split: nat.splits)
qed

lemma strip_empty_iff: "strip s = [] \<longleftrightarrow> list_all py_isspace s"
proof -
  have "dropWhile py_isspace (rev (dropWhile py_isspace s)) = [] \<longleftrightarrow> dropWhile py_isspace s = []"
  proof
    assume a: "dropWhile py_isspace (rev (dropWhile py_isspace s)) = []"
    show "dropWhile py_isspace s = []"
    proof (rule ccontr)
      assume n: "dropWhile py_isspace s \<noteq> []"
      then have "\<not> py_isspace (hd (dropWhile py_isspace s))"
        by (rule hd_dropWhile)
      moreover have "hd (dropWhile py_isspace s) \<in> set (rev (dropWhile py_isspace s))"
        using n by simp
      ultimately show False
        using a by (auto simp: dropWhile_eq_Nil_conv)
    qed
  next
    assume "dropWhile py_isspace s = []"
    then show "dropWhile py_isspace (rev (dropWhile py_isspace s)) = []"
      by (simp only: rev.simps dropWhile.simps)
  qed
  then show ?thesis
    by (simp add: strip_def dropWhile_eq_Nil_conv list_all_iff)
qed

lemma num_days_of_ge: "1 \<le> num_days_of forecast_days"
  by (simp add: num_days_of_def split: sum.splits)

lemma aggregate_day_not_dict: "(\<forall>kvs. day \<noteq> PDict kvs) \<Longrightarrow> aggregate_day day = Inl AttributeError"
  by (cases day) (simp_all add: aggregate_day_def)

lemma reduce_body_list:
  assumes "py_get data (ascii ''weather'') = Inr (PList days)" and "days \<noteq> []"
  shows "reduce_body s forecast_days data =
    ([], bind (traverse aggregate_day
                 (take (nat (min (num_days_of forecast_days) (int (length days)))) days))
           (\<lambda>fc. Inr (Some \<lparr>location = s, forecast = fc\<rparr>)))"
proof -
  have "0 \<le> min (num_days_of forecast_days) (int (length days))"
    using num_days_of_ge [of forecast_days] by simp
  then show ?thesis
    using assms by (simp add: reduce_body_def or_empty_def slice_end_def)
qed

lemma reduce_body_Some:
  assumes "reduce_body s forecast_days data = (msgs, Inr (Some r))"
  shows "\<exists>days. py_get data (ascii ''weather'') = Inr (PList days) \<and> days \<noteq> []"
proof -
  from assms obtain w where w: "py_get data (ascii ''weather'') = Inr w"
    by (cases "py_get data (ascii ''weather'')") (auto simp: reduce_body_def)
  from assms w have t: "py_truthy (or_empty w)"
    by (auto simp: reduce_body_def Let_def split: if_splits)
  then have tw: "py_truthy w" and ow: "or_empty w = w"
    by (auto simp: or_empty_def split: if_splits)
  from assms w t ow have b: "bind (py_len w) (\<lambda>n.
             bind (py_slice_to w (min (num_days_of forecast_days) (int n))) (\<lambda>sl.
             bind (py_iter sl) (\<lambda>ds.
             bind (traverse aggregate_day ds) (\<lambda>fc.
             Inr (Some \<lparr>location = s, forecast = fc\<rparr>))))) = Inr (Some r)"
    by (simp add: reduce_body_def Let_def)
  show ?thesis
  proof (cases w)
    case (PStr cs)
    with tw have ne: "cs \<noteq> []" by simp
    have "0 < min (num_days_of forecast_days) (int (length cs))"
      using num_days_of_ge [of forecast_days] ne by simp
    then have "take (slice_end (min (num_days_of forecast_days) (int (length cs))) (length cs)) cs \<noteq> []"
      using ne by (auto simp: slice_end_def)
    then obtain c cs' where
      "take (slice_end (min (num_days_of forecast_days) (int (length cs))) (length cs)) cs = c # cs'"
      by (cases "take (slice_end (min (num_days_of forecast_days) (int (length cs))) (length cs)) cs") auto
    with b PStr show ?thesis
      by (simp add: aggregate_day_not_dict)
  next
    case (PList days)
    with tw w show ?thesis by simp
  qed (use b in simp_all)
qed

lemma get_weather_data_Some:
  assumes "outcome (get_weather_data http loc forecast_days) = Inr (Some r)"
  shows "\<exists>s q data msgs. loc = PStr s \<and> strip s \<noteq> [] \<and> quote (strip s) = Inr q \<and>
     http (ascii ''https://wttr.in/'' @ q @ ascii ''?format=j1'') = Inr data \<and>
     reduce_body s forecast_days data = (msgs, Inr (Some r)) \<and>
     requests (get_weather_data http loc forecast_days) =
       [ascii ''https://wttr.in/'' @ q @ ascii ''?format=j1'']"
  using assms
  by (cases loc)
     (auto simp: get_weather_data_def Let_def split: if_splits sum.splits prod.splits)

lemma get_weather_data_body:
  assumes "loc = PStr s" and "strip s \<noteq> []" and "quote (strip s) = Inr q"
    and "http (ascii ''https://wttr.in/'' @ q @ ascii ''?format=j1'') = Inr data"
  shows "get_weather_data http loc forecast_days =
    \<lparr>requests = [ascii ''https://wttr.in/'' @ q @ ascii ''?format=j1''],
     printed = fst (reduce_body s forecast_days data),
     outcome = snd (reduce_body s forecast_days data)\<rparr>"
  using assms by (simp add: get_weather_data_def Let_def split: prod.splits)

section \<open>Rounding facts\<close>

lemma ipow_powi: "ipow b e = (of_int b :: rat) powi e"
  by (simp add: ipow_def power_int_def power_one_over inverse_eq_divide)

lemma ndigits_bounds:
  "0 < n \<Longrightarrow> 1 < b \<Longrightarrow>
   1 \<le> ndigits b n \<and> b ^ nat (ndigits b n - 1) \<le> n \<and> n < b ^ nat (ndigits b n)"
proof (induction b n rule: ndigits.induct)
  case (1 b n)
  have step: "ndigits b n = ndigits b (n div b) + 1"
    using "1.prems" by (subst ndigits.simps) simp
  show ?case
  proof (cases "n div b = 0")
    case True
    then have "n < b"
      using "1.prems" by (simp add: zdiv_eq_0_iff)
    moreover have "ndigits b (n div b) = 0"
      using True by (subst ndigits.simps) simp
    ultimately show ?thesis
      using "1.prems" step by simp
  next
    case False
    then have pos: "0 < n div b"
      using "1.prems" pos_imp_zdiv_nonneg_iff [of b n] by simp
    from "1.IH" [OF _ pos] "1.prems"
    have ih: "1 \<le> ndigits b (n div b)"
      "b ^ nat (ndigits b (n div b) - 1) \<le> n div b"
      "n div b < b ^ nat (ndigits b (n div b))"
      by auto
    have e1: "nat (ndigits b n - 1) = Suc (nat (ndigits b (n div b) - 1))"
      using ih(1) step by simp
    have e2: "nat (ndigits b n) = Suc (nat (ndigits b (n div b)))"
      using ih(1) step by simp
    have "b * b ^ nat (ndigits b (n div b) - 1) \<le> b * (n div b)"
      using ih(2) "1.prems" by simp
    also have "\<dots> \<le> n"
      using "1.prems" mult_div_mod_eq [of b n] pos_mod_sign [of b n] by linarith
    finally have lo: "b ^ nat (ndigits b n - 1) \<le> n"
      by (simp add: e1)
    have "n < b * (n div b) + b"
      using "1.prems" mult_div_mod_eq [of b n] pos_mod_bound [of b n] by linarith
    also have "\<dots> = b * (n div b + 1)"
      by (simp add: algebra_simps)
    also have "\<dots> \<le> b * b ^ nat (ndigits b (n div b))"
      using ih(3) "1.prems" by simp
    finally have hi: "n < b ^ nat (ndigits b n)"
      by (simp add: e2)
    from lo hi ih(1) step show ?thesis by simp
  qed
qed

lemma rhe_bound: "\<bar>of_int (round_half_even x) - x\<bar> \<le> 1 / 2"
proof -
  have "of_int \<lfloor>x\<rfloor> \<le> x" "x < of_int \<lfloor>x\<rfloor> + 1"
    by linarith+
  then show ?thesis
    by (auto simp: round_half_even_def Let_def)
qed

lemma rhe_tie_even:
  assumes "\<bar>of_int (round_half_even x) - x\<bar> = 1 / 2"
  shows "even (round_half_even x)"
proof -
  have f: "of_int \<lfloor>x\<rfloor> \<le> x" "x < of_int \<lfloor>x\<rfloor> + 1"
    by linarith+
  show ?thesis
  proof (cases "x - of_int \<lfloor>x\<rfloor> = 1 / 2")
    case True
    then show ?thesis by (simp add: round_half_even_def Let_def)
  next
    case False
    then have "\<bar>of_int (round_half_even x) - x\<bar> < 1 / 2"
      using f by (auto simp: round_half_even_def Let_def)
    with assms show ?thesis by simp
  qed
qed

lemma rhe_unique:
  assumes "\<bar>of_int k - x\<bar> < 1 / 2"
  shows "round_half_even x = k"
proof -
  have "\<bar>(of_int (round_half_even x) :: rat) - of_int k\<bar> < 1"
    using rhe_bound [of x] assms by linarith
  then have "\<bar>of_int (round_half_even x - k) :: rat\<bar> < of_int 1"
    by simp
  then have "\<bar>round_half_even x - k\<bar> < 1"
    unfolding of_int_abs [symmetric] of_int_less_iff .
  then show ?thesis by simp
qed

lemma rhe_of_int: "round_half_even (of_int k) = k"
  by (rule rhe_unique) simp

lemma ilog_bounds:
  assumes "0 < x" and "1 < b"
  shows "ipow b (ilog b x) \<le> x \<and> x < ipow b (ilog b x + 1)"
proof -
  obtain p q where pq: "quotient_of x = (p, q)"
    by force
  have q: "0 < q"
    using quotient_of_denom_pos [OF pq] .
  have x: "x = of_int p / of_int q"
    using quotient_of_div [OF pq] .
  have p: "0 < p"
    using assms(1) q by (simp add: x zero_less_divide_iff)
  let ?B = "of_int b :: rat"
  have B: "1 < ?B" using assms(2) by simp
  from ndigits_bounds [OF p assms(2)]
  have dp: "1 \<le> ndigits b p" "b ^ nat (ndigits b p - 1) \<le> p" "p < b ^ nat (ndigits b p)"
    by auto
  from ndigits_bounds [OF q assms(2)]
  have dq: "1 \<le> ndigits b q" "b ^ nat (ndigits b q - 1) \<le> q" "q < b ^ nat (ndigits b q)"
    by auto
  have cv: "\<And>k. 0 \<le> k \<Longrightarrow> (of_int (b ^ nat k) :: rat) = ?B powi k"
    by (simp add: power_int_nonneg_exp)
  have p1: "?B powi (ndigits b p - 1) \<le> of_int p"
    using dp(1,2) cv [of "ndigits b p - 1"] of_int_le_iff [of "b ^ nat (ndigits b p - 1)" p, where 'a = rat]
    by simp
  have p2: "of_int p < ?B powi (ndigits b p)"
    using dp(1,3) cv [of "ndigits b p"] of_int_less_iff [of p "b ^ nat (ndigits b p)", where 'a = rat]
    by simp
  have q1: "?B powi (ndigits b q - 1) \<le> of_int q"
    using dq(1,2) cv [of "ndigits b q - 1"] of_int_le_iff [of "b ^ nat (ndigits b q - 1)" q, where 'a = rat]
    by simp
  have q2: "of_int q < ?B powi (ndigits b q)"
    using dq(1,3) cv [of "ndigits b q"] of_int_less_iff [of q "b ^ nat (ndigits b q)", where 'a = rat]
    by simp
  have Bpos: "\<And>k. 0 < ?B powi k" using B by simp
  let ?d = "ndigits b p - ndigits b q"
  have lo: "?B powi (?d - 1) < x"
  proof -
    have "?B powi (?d - 1) = ?B powi (ndigits b p - 1) / ?B powi (ndigits b q)"
      using B by (simp add: power_int_diff [symmetric] algebra_simps)
    also have "\<dots> < of_int p / of_int q"
      using p1 q2 q Bpos by (intro frac_less2) auto
    finally show ?thesis by (simp add: x)
  qed
  have hi: "x < ?B powi (?d + 1)"
  proof -
    have "of_int p / of_int q < ?B powi (ndigits b p) / ?B powi (ndigits b q - 1)"
      using p2 q1 p Bpos by (intro frac_less) auto
    also have "\<dots> = ?B powi (?d + 1)"
      using B by (simp add: power_int_diff [symmetric] algebra_simps)
    finally show ?thesis by (simp add: x)
  qed
  show ?thesis
    using lo hi by (auto simp: ilog_def pq Let_def ipow_powi)
qed

lemma round_small_ratio:
  assumes s: "0 \<le> s" "s < 2 ^ 52" and n: "0 < n"
  shows "\<exists>y. round_binary64 (of_int s / of_int n) = Some y \<and>
              round_half_even y = round_half_even (of_int s / of_int n)"
proof (cases "s = 0")
  case True
  then show ?thesis by (simp add: round_binary64_def)
next
  case False
  define x :: rat where "x = of_int s / of_int n"
  have npos: "(0::rat) < of_int n" using n by simp
  have n1: "(1::rat) \<le> of_int n" using n by simp
  have spos: "(0::rat) < of_int s" using s False by simp
  have xn: "x * of_int n = of_int s" using npos by (simp add: x_def)
  have xpos: "0 < x" using spos npos by (simp add: x_def)
  have xle: "x \<le> of_int s"
    using mult_left_mono [OF n1, of x] xpos xn by simp
  have s52: "(of_int s :: rat) < 2 ^ 52"
    using s(2) of_int_less_iff [of s "2 ^ 52", where 'a = rat] by simp
  define k where "k = ilog 2 x"
  have kb: "2 powi k \<le> x" "x < 2 powi (k + 1)"
    using ilog_bounds [OF xpos, of 2] by (simp_all add: ipow_powi k_def)
  have "(2::rat) powi k < 2 powi 52"
    using kb(1) xle s52 by simp
  then have k51: "k < 52"
    by (rule power_int_le_imp_less_exp [rotated]) simp_all
  define e where "e = max (k - 52) (- 1074)"
  have e_le: "e \<le> - 1" using k51 by (simp add: e_def)
  define P :: rat where "P = 2 powi e"
  have Ppos: "0 < P" by (simp add: P_def)
  have Ple: "P \<le> 1 / 2"
    using power_int_increasing [OF e_le, of "2::rat"] by (simp add: P_def)
  define M where "M = round_half_even (x / P)"
  define y where "y = of_int M * P"
  have "y - x = (of_int M - x / P) * P"
    using Ppos by (simp add: y_def field_simps)
  then have "\<bar>y - x\<bar> = \<bar>of_int M - x / P\<bar> * P"
    using Ppos by (simp add: abs_mult)
  also have "\<dots> \<le> 1 / 2 * P"
    using rhe_bound [of "x / P"] Ppos unfolding M_def by (intro mult_right_mono) auto
  finally have err: "\<bar>y - x\<bar> \<le> P / 2" by simp
  have "y < 2 ^ 52 + 1"
    using err Ple xle s52 by linarith
  also have "\<dots> \<le> (2::rat) ^ 1024"
    by simp
  finally have ylt: "\<not> 2 ^ 1024 \<le> y" by simp
  have rb: "round_binary64 x = Some y"
    using xpos ylt
    by (simp add: round_binary64_def Let_def ipow_powi y_def M_def P_def e_def k_def)
  have "round_half_even y = round_half_even x"
  proof -
    consider (half) m where "x = of_int m / 2" | (small) "x < 1 / 4"
      | (gen) "1 / 4 \<le> x" "\<forall>m. x \<noteq> of_int m / 2"
      by fastforce
    then show ?thesis
    proof cases
      case half
      have "0 \<le> - e - 1" using e_le by simp
      then have "(2::rat) powi (- e - 1) = 2 ^ nat (- e - 1)"
        by (simp add: power_int_nonneg_exp)
      moreover have "1 / P = 2 * 2 powi (- e - 1)"
        by (simp add: P_def power_int_diff power_int_minus field_simps)
      ultimately have iP: "1 / P = 2 * 2 ^ nat (- e - 1)"
        by simp
      have "x / P = x * (1 / P)"
        by simp
      also have "\<dots> = of_int m / 2 * (2 * 2 ^ nat (- e - 1))"
        by (simp only: iP half)
      finally have "x / P = of_int (m * 2 ^ nat (- e - 1))"
        by simp
      then have "M = m * 2 ^ nat (- e - 1)"
        unfolding M_def by (simp only: rhe_of_int)
      then have "of_int M = x / P"
        using \<open>x / P = of_int (m * 2 ^ nat (- e - 1))\<close> by simp
      then have "y = x" using Ppos by (simp add: y_def)
      then show ?thesis by simp
    next
      case small
      have "round_half_even x = 0"
        by (rule rhe_unique) (use xpos small in simp)
      moreover have "round_half_even y = 0"
        by (rule rhe_unique) (use xpos small err Ple in \<open>simp; linarith\<close>)
      ultimately show ?thesis by simp
    next
      case gen
      have "- 2 \<le> k"
      proof (rule ccontr)
        assume "\<not> - 2 \<le> k"
        then have "k + 1 \<le> - 2" by simp
        then have "(2::rat) powi (k + 1) \<le> 2 powi (- 2)"
          by (intro power_int_increasing) simp_all
        then show False using kb(2) gen(1) by simp
      qed
      then have e: "e = k - 52" by (simp add: e_def)
      define c :: rat where "c = 2 ^ 52"
      have cpos: "0 < c" by (simp add: c_def)
      have "of_int n * 2 powi k \<le> x * of_int n"
        using kb(1) npos by (simp add: mult.commute)
      then have "of_int n * 2 powi k < c"
        using xn s52 by (simp add: c_def)
      moreover have "P = 2 powi k / c"
        by (simp add: P_def e power_int_diff c_def)
      then have "P * c = 2 powi k"
        using cpos by simp
      then have "of_int n * P * c = of_int n * 2 powi k"
        by (simp only: mult.assoc)
      ultimately have "of_int n * P * c < 1 * c"
        by (simp only: mult_1)
      then have nP: "of_int n * P < 1"
        using cpos by (simp only: mult_less_cancel_right_pos)
      define r where "r = round_half_even x"
      have rbd: "\<bar>of_int r - x\<bar> \<le> 1 / 2"
        unfolding r_def by (rule rhe_bound)
      have rne: "\<bar>of_int r - x\<bar> \<noteq> 1 / 2"
      proof
        assume "\<bar>of_int r - x\<bar> = 1 / 2"
        then have "x = of_int (2 * r + 1) / 2 \<or> x = of_int (2 * r - 1) / 2"
          by (auto simp: abs_if field_simps split: if_splits)
        then show False using gen(2) by blast
      qed
      define t where "t = n - \<bar>2 * r * n - 2 * s\<bar>"
      have "2 * of_int n * \<bar>of_int r - x\<bar> = \<bar>2 * of_int n * (of_int r - x)\<bar>"
        using npos by (simp add: abs_mult)
      also have "2 * of_int n * (of_int r - x) = of_int (2 * r * n - 2 * s)"
        using xn by (simp add: algebra_simps)
      finally have tt: "(of_int t :: rat) = 2 * of_int n * (1 / 2 - \<bar>of_int r - x\<bar>)"
        by (simp add: t_def algebra_simps)
      have "0 < 2 * of_int n * (1 / 2 - \<bar>of_int r - x\<bar>)"
        using rbd rne npos by (intro mult_pos_pos) auto
      then have "(0::rat) < of_int t" using tt by simp
      then have "1 \<le> t" by simp
      then have "(1::rat) \<le> of_int t" by simp
      then have "1 \<le> of_int n - 2 * of_int n * \<bar>of_int r - x\<bar>"
        using tt by (simp add: algebra_simps)
      then have "of_int n * (2 * \<bar>of_int r - x\<bar> + P) < of_int n * 1"
        using nP by (simp add: algebra_simps)
      then have "2 * \<bar>of_int r - x\<bar> + P < 1"
        using npos by (simp only: mult_less_cancel_left_pos)
      moreover have "\<bar>of_int r - y\<bar> \<le> \<bar>of_int r - x\<bar> + \<bar>y - x\<bar>"
        by (simp add: abs_if)
      ultimately have "\<bar>of_int r - y\<bar> < 1 / 2"
        using err by simp
      then show ?thesis
        using rhe_unique [of r y] by (simp add: r_def)
    qed
  qed
  with rb show ?thesis by (auto simp: x_def)
qed

section \<open>Facts about the aggregates\<close>

lemma nearest_int_rhe: "nearest_int x (round_half_even x)"
proof (cases "\<bar>of_int (round_half_even x) - x\<bar> = 1 / 2")
  case True
  then show ?thesis
    using rhe_tie_even [of x] unfolding nearest_int_def by simp
next
  case False
  then have "\<bar>of_int (round_half_even x) - x\<bar> < 1 / 2"
    using rhe_bound [of x] by (simp only: order.strict_iff_order) simp
  then show ?thesis
    unfolding nearest_int_def by simp
qed

lemma nearest_int_neg: "nearest_int x k \<Longrightarrow> nearest_int (- x) (- k)"
proof -
  have "\<bar>of_int (- k) - (- x)\<bar> = \<bar>of_int k - x\<bar>"
    by (simp add: abs_if)
  then show "nearest_int x k \<Longrightarrow> nearest_int (- x) (- k)"
    unfolding nearest_int_def by simp
qed

lemma nearest_int_unique:
  assumes "nearest_int x k" and "nearest_int x l"
  shows "k = l"
proof (rule ccontr)
  assume ne: "k \<noteq> l"
  have a: "\<bar>of_int k - x\<bar> \<le> 1 / 2" "\<bar>of_int l - x\<bar> \<le> 1 / 2"
    using assms by (auto simp: nearest_int_def)
  then have "\<bar>(of_int k :: rat) - of_int l\<bar> \<le> 1"
    by (simp add: abs_if split: if_splits)
  then have "\<bar>of_int (k - l) :: rat\<bar> \<le> of_int 1"
    by simp
  then have d: "\<bar>k - l\<bar> \<le> 1"
    unfolding of_int_abs [symmetric] of_int_le_iff .
  with ne have kl: "k = l + 1 \<or> l = k + 1"
    by auto
  then have tie: "\<bar>of_int k - x\<bar> = 1 / 2" "\<bar>of_int l - x\<bar> = 1 / 2"
    using a by (auto simp: abs_if split: if_splits)
  then have "even k" "even l"
    using assms by (auto simp: nearest_int_def)
  with kl show False by auto
qed

lemma average_small:
  assumes "xs \<noteq> []" and "\<bar>sum_list xs\<bar> < 2 ^ 52"
  shows "average xs = Inr (Some (round_half_even (mean xs)))"
proof -
  let ?s = "sum_list xs" and ?n = "int (length xs)"
  have n: "0 < ?n" using assms(1) by simp
  from round_small_ratio [of "\<bar>?s\<bar>" ?n] assms(2) n
  obtain y where y: "round_binary64 (of_int \<bar>?s\<bar> / of_int ?n) = Some y"
    and r: "round_half_even y = round_half_even (of_int \<bar>?s\<bar> / of_int ?n)"
    by auto
  let ?k = "round_half_even (of_int \<bar>?s\<bar> / of_int ?n)"
  have av: "average xs = Inr (Some (if ?s < 0 then - ?k else ?k))"
    using assms(1) n y r by (simp add: average_def int_truediv_def)
  have "nearest_int (mean xs) (if ?s < 0 then - ?k else ?k)"
  proof (cases "?s < 0")
    case True
    then have "mean xs = - (of_int \<bar>?s\<bar> / of_int ?n)"
      by (simp add: mean_def)
    then show ?thesis
      using nearest_int_neg [OF nearest_int_rhe [of "of_int \<bar>?s\<bar> / of_int ?n"]] True by simp
  next
    case False
    then have "mean xs = of_int \<bar>?s\<bar> / of_int ?n"
      by (simp add: mean_def)
    then show ?thesis
      using nearest_int_rhe [of "of_int \<bar>?s\<bar> / of_int ?n"] False by simp
  qed
  then have "(if ?s < 0 then - ?k else ?k) = round_half_even (mean xs)"
    using nearest_int_rhe [of "mean xs"] by (rule nearest_int_unique)
  with av show ?thesis by simp
qed

lemma readings_valid:
  "readings key hs = Inr rs \<Longrightarrow> valid rs = coercible (present key hs)"
proof (induction hs arbitrary: rs)
  case Nil
  then show ?case by (simp add: valid_def coercible_def present_def)
next
  case (Cons h hs)
  from Cons.prems obtain v r where v: "py_get h key = Inr v" and r: "readings key hs = Inr r"
    and rs: "rs = (if v \<noteq> PNone then safe_int v # r else r)"
    by (auto simp: bind_Inr_iff)
  from Cons.IH [OF r] have ih: "valid r = coercible (present key hs)" .
  have p: "present key (h # hs) = (if v \<noteq> PNone then v # present key hs else present key hs)"
    using v by (simp add: present_def)
  show ?case
    using ih by (auto simp: rs p valid_def coercible_def)
qed


lemma maximum_Max:
  "maximum xs = (if xs = [] then None else Some (Max (set xs)))"
proof (cases xs)
  case Nil
  then show ?thesis by (simp add: maximum_def)
next
  case (Cons x ys)
  have "foldl max x ys = fold max ys x"
    by (simp add: foldl_conv_fold max.commute)
  then show ?thesis
    using Cons Max.set_eq_fold [of x ys] by (simp add: maximum_def)
qed

lemma aggregate_day_Inr:
  "aggregate_day day = Inr r \<longleftrightarrow>
   (\<exists>d t p h hs hu wi av.
      py_get day (ascii ''date'') = Inr d \<and> py_get day (ascii ''avgtempC'') = Inr t \<and>
      py_get day (ascii ''totalprecipMM'') = Inr p \<and> py_get day (ascii ''hourly'') = Inr h \<and>
      py_iter (or_empty h) = Inr hs \<and>
      readings (ascii ''humidity'') hs = Inr hu \<and>
      readings (ascii ''windspeedKmph'') hs = Inr wi \<and>
      average (valid hu) = Inr av \<and>
      r = \<lparr>date = d, temp = safe_int t, humidity = av, wind = maximum (valid wi),
           precipitation = safe_float p\<rparr>)"
  unfolding aggregate_day_def bind_Inr_iff by blast

section \<open>Invalid input\<close>

text \<open>
  Claim C4. When \<^verbatim>\<open>location\<close> is not a string, or is a string that is empty or consists of
  white space only, the call returns \<^verbatim>\<open>None\<close> at once: it prints the diagnostic, builds no
  URL and issues no request.
\<close>

theorem invalid_location_no_request:
  "(\<forall>s. loc \<noteq> PStr s) \<or> (\<exists>s. loc = PStr s \<and> list_all py_isspace s) \<Longrightarrow>
   get_weather_data http loc forecast_days =
     \<lparr>requests = [], printed = [InvalidLocation], outcome = Inr None\<rparr>"
  by (cases loc) (auto simp: get_weather_data_def strip_empty_iff)

theorem invalid_location_no_request_witness:
  "get_weather_data (\<lambda>u. Inr (PDict [])) (PInt 7) (PInt 5) =
     \<lparr>requests = [], printed = [InvalidLocation], outcome = Inr None\<rparr> \<and>
   get_weather_data (\<lambda>u. Inr (PDict [])) (PStr [32, 9, 12288]) (PInt 5) =
     \<lparr>requests = [], printed = [InvalidLocation], outcome = Inr None\<rparr>"
proof -
  have a: "(\<forall>s. PInt 7 \<noteq> PStr s) \<or> (\<exists>s. PInt 7 = PStr s \<and> list_all py_isspace s)"
    by simp
  have b: "(\<forall>s. PStr [32, 9, 12288] \<noteq> PStr s) \<or>
           (\<exists>s. PStr [32, 9, 12288] = PStr s \<and> list_all py_isspace s)"
    by (simp add: py_isspace_def)
  show ?thesis
    using invalid_location_no_request [OF a] invalid_location_no_request [OF b] by simp
qed

section \<open>The example data, evaluated\<close>

lemma example_keys:
  "py_get (example_day d) (ascii ''date'') = Inr (PStr d)"
  "py_get (example_day d) (ascii ''avgtempC'') = Inr (PStr (ascii ''n/a''))"
  "py_get (example_day d) (ascii ''totalprecipMM'') = Inr (PStr (ascii ''n/a''))"
  "py_get (example_day d) (ascii ''hourly'') = Inr (PList example_hourly)"
  by (simp_all add: example_day_def ascii_def)

lemma example_hourly_iter: "py_iter (or_empty (PList example_hourly)) = Inr example_hourly"
  by (simp add: or_empty_def example_hourly_def)

lemma example_humidities:
  "readings (ascii ''humidity'') example_hourly = Inr [Some 50, Some 60, Some 70]"
  by code_simp

lemma example_winds:
  "readings (ascii ''windspeedKmph'') example_hourly = Inr [Some 10, Some 25, Some 15]"
  by code_simp

lemma example_present:
  "coercible (present (ascii ''humidity'') example_hourly) = [50, 60, 70]"
  "coercible (present (ascii ''windspeedKmph'') example_hourly) = [10, 25, 15]"
  by code_simp+

lemma example_average: "average [50, 60, 70] = Inr (Some 60)"
proof -
  have "round_half_even (mean [50, 60, 70]) = 60"
    by code_simp
  then show ?thesis
    using average_small [of "[50, 60, 70]"] by simp
qed

lemma not_available:
  "safe_int (PStr (ascii ''n/a'')) = None" "safe_float (PStr (ascii ''n/a'')) = None"
  by code_simp+

lemma example_day_reduced:
  "aggregate_day (example_day d) =
     Inr \<lparr>date = PStr d, temp = None, humidity = Some 60, wind = Some 25,
          precipitation = None\<rparr>"
  by (simp add: aggregate_day_def example_keys example_hourly_iter example_humidities
        example_winds example_average not_available valid_def maximum_def)

section \<open>Humidity and wind\<close>

text \<open>
  Claim C2, as amended. The claim as stated fails for readings beyond the 53 bits of a
  float, since the mean is computed by float division: see the counterexample below.
  When the integer-coercible present humidity readings of a day sum to less than
  \<open>2\<^sup>5\<^sup>2\<close> in magnitude, the humidity field is \<^verbatim>\<open>None\<close> if there is no such reading, and
  otherwise their arithmetic mean rounded to the nearest integer, a tie going to the
  even one. Values that are present but not coercible count neither in the sum nor in
  the denominator. For the readings 50, 60, 70 the field is 60.
\<close>

theorem humidity_rounded_mean:
  assumes "aggregate_day day = Inr r"
    and "py_get day (ascii ''hourly'') = Inr h"
    and "py_iter (or_empty h) = Inr hs"
    and "\<bar>sum_list (coercible (present (ascii ''humidity'') hs))\<bar> < 2 ^ 52"
  shows "humidity r =
           (if coercible (present (ascii ''humidity'') hs) = [] then None
            else Some (round_half_even (mean (coercible (present (ascii ''humidity'') hs))))) \<and>
         nearest_int (mean (coercible (present (ascii ''humidity'') hs)))
           (round_half_even (mean (coercible (present (ascii ''humidity'') hs))))"
proof -
  from assms(1) obtain h' hs' hu av where
    g: "py_get day (ascii ''hourly'') = Inr h'" "py_iter (or_empty h') = Inr hs'"
    and hu: "readings (ascii ''humidity'') hs' = Inr hu"
    and av: "average (valid hu) = Inr av" and r: "humidity r = av"
    unfolding aggregate_day_Inr by auto
  from g assms(2,3) have "hs' = hs" by simp
  with hu have v: "valid hu = coercible (present (ascii ''humidity'') hs)"
    using readings_valid by blast
  show ?thesis
  proof (cases "coercible (present (ascii ''humidity'') hs) = []")
    case True
    with av v r show ?thesis
      by (simp add: average_def nearest_int_rhe)
  next
    case False
    with av v r assms(4) show ?thesis
      by (simp add: average_small nearest_int_rhe)
  qed
qed

theorem humidity_rounded_mean_witness:
  "aggregate_day (example_day (ascii ''2024-05-01'')) =
     Inr \<lparr>date = PStr (ascii ''2024-05-01''), temp = None, humidity = Some 60,
          wind = Some 25, precipitation = None\<rparr> \<and>
   coercible (present (ascii ''humidity'') example_hourly) = [50, 60, 70] \<and>
   round_half_even (mean [50, 60, 70]) = 60 \<and> nearest_int (mean [50, 60, 70]) 60"
proof -
  have b: "\<bar>sum_list (coercible (present (ascii ''humidity'') example_hourly))\<bar> < 2 ^ 52"
    by (simp add: example_present)
  note th = humidity_rounded_mean [OF example_day_reduced example_keys(4) example_hourly_iter b,
      of "ascii ''2024-05-01''"]
  have c1: "round_half_even (mean [50, 60, 70]) = 60"
    using th [THEN conjunct1] by (simp add: example_present)
  have "nearest_int (mean [50, 60, 70]) (round_half_even (mean [50, 60, 70]))"
    using th [THEN conjunct2] by (simp only: example_present)
  then have c2: "nearest_int (mean [50, 60, 70]) 60"
    by (simp only: c1)
  show ?thesis
    by (simp add: example_present example_day_reduced c1 c2)
qed

text \<open>
  A day whose one humidity reading is \<open>2\<^sup>5\<^sup>3 + 1\<close>: the mean of the coercible readings is
  that number, an integer, and the humidity field is \<open>2\<^sup>5\<^sup>3\<close>.
\<close>

theorem humidity_rounded_mean_counterexample:
  "aggregate_day large_reading_day =
     Inr \<lparr>date = PNone, temp = None, humidity = Some 9007199254740992, wind = None,
          precipitation = None\<rparr> \<and>
   coercible (present (ascii ''humidity'') [hour_entry (PInt 9007199254740993) PNone]) =
     [9007199254740993] \<and>
   mean [9007199254740993] = 9007199254740993 \<and>
   \<not> nearest_int (mean [9007199254740993]) 9007199254740992"
  by code_simp

text \<open>
  Claim C6. The wind field of a day is the maximum of the integer-coercible present
  hourly \<^verbatim>\<open>windspeedKmph\<close> values, and \<^verbatim>\<open>None\<close> when there is none. For the values 10, 25, 15
  it is 25.
\<close>

theorem wind_maximum:
  assumes "aggregate_day day = Inr r"
    and "py_get day (ascii ''hourly'') = Inr h"
    and "py_iter (or_empty h) = Inr hs"
  shows "wind r =
           (if coercible (present (ascii ''windspeedKmph'') hs) = [] then None
            else Some (Max (set (coercible (present (ascii ''windspeedKmph'') hs)))))"
proof -
  from assms(1) obtain h' hs' wi where
    g: "py_get day (ascii ''hourly'') = Inr h'" "py_iter (or_empty h') = Inr hs'"
    and wi: "readings (ascii ''windspeedKmph'') hs' = Inr wi"
    and r: "wind r = maximum (valid wi)"
    unfolding aggregate_day_Inr by auto
  from g assms(2,3) have "hs' = hs" by simp
  with wi have "valid wi = coercible (present (ascii ''windspeedKmph'') hs)"
    using readings_valid by blast
  with r show ?thesis
    by (simp add: maximum_Max)
qed

theorem wind_maximum_witness:
  "aggregate_day (example_day (ascii ''2024-05-01'')) =
     Inr \<lparr>date = PStr (ascii ''2024-05-01''), temp = None, humidity = Some 60,
          wind = Some 25, precipitation = None\<rparr> \<and>
   coercible (present (ascii ''windspeedKmph'') example_hourly) = [10, 25, 15] \<and>
   Max (set [10, 25, 15 :: int]) = 25"
proof -
  from wind_maximum [OF example_day_reduced example_keys(4) example_hourly_iter,
      of "ascii ''2024-05-01''"]
  show ?thesis
    by (simp add: example_present example_day_reduced)
qed

section \<open>The shape of the result\<close>

lemma reduce_body_Some_list:
  assumes "reduce_body s forecast_days data = (msgs, Inr (Some r))"
  shows "\<exists>days fc. py_get data (ascii ''weather'') = Inr (PList days) \<and> days \<noteq> [] \<and>
           traverse aggregate_day
             (take (nat (min (num_days_of forecast_days) (int (length days)))) days) = Inr fc \<and>
           r = \<lparr>location = s, forecast = fc\<rparr>"
proof -
  from reduce_body_Some [OF assms] obtain days where
    d: "py_get data (ascii ''weather'') = Inr (PList days)" "days \<noteq> []"
    by blast
  from reduce_body_list [OF d, of s forecast_days] assms
  have "bind (traverse aggregate_day
                 (take (nat (min (num_days_of forecast_days) (int (length days)))) days))
           (\<lambda>fc. Inr (Some \<lparr>location = s, forecast = fc\<rparr>)) = Inr (Some r)"
    by simp
  then show ?thesis
    using d by (auto simp: bind_Inr_iff)
qed

lemma num_days_resolved:
  "N \<noteq> 0 \<Longrightarrow> nat (min (num_days_of forecast_days) (int N)) = resolved_days forecast_days N"
  by (auto simp: num_days_of_def resolved_days_def max.commute split: sum.splits)

lemma resolved_days_bounds: "N \<noteq> 0 \<Longrightarrow> 1 \<le> resolved_days forecast_days N \<and> resolved_days forecast_days N \<le> N"
  by (auto simp: resolved_days_def split: sum.splits)

lemma outcome_of_list:
  assumes "loc = PStr s" and "strip s \<noteq> []" and "quote (strip s) = Inr q"
    and "http (url_of q) = Inr data"
    and "py_get data (ascii ''weather'') = Inr (PList days)" and "days \<noteq> []"
  shows "outcome (get_weather_data http loc forecast_days) =
           bind (traverse aggregate_day (take (resolved_days forecast_days (length days)) days))
             (\<lambda>fc. Inr (Some \<lparr>location = s, forecast = fc\<rparr>))"
  using assms get_weather_data_body [of loc s q http data forecast_days]
    reduce_body_list [of data days s forecast_days] num_days_resolved [of "length days" forecast_days]
  by (simp add: url_of_def)

text \<open>
  Claim C1. Let the response decode to a body whose \<^verbatim>\<open>weather\<close> holds a non-empty list of
  \<open>N\<close> daily entries. The call then reduces the first \<open>n\<close> entries in upstream order, and
  the forecast list it returns has exactly \<open>n\<close> entries, the \<open>i\<close>-th being the reduction of
  the \<open>i\<close>-th upstream entry, where \<open>n = min (max D 1) N\<close> if the requested day count
  coerces to the integer \<open>D\<close>, and \<open>n = min 5 N\<close> if it does not coerce.
\<close>

theorem forecast_length:
  assumes "loc = PStr s" and "strip s \<noteq> []" and "quote (strip s) = Inr q"
    and "http (url_of q) = Inr data"
    and "py_get data (ascii ''weather'') = Inr (PList days)" and "days \<noteq> []"
  shows "outcome (get_weather_data http loc forecast_days) =
           bind (traverse aggregate_day (take (resolved_days forecast_days (length days)) days))
             (\<lambda>fc. Inr (Some \<lparr>location = s, forecast = fc\<rparr>)) \<and>
         (\<forall>r. outcome (get_weather_data http loc forecast_days) = Inr (Some r) \<longrightarrow>
            length (forecast r) = resolved_days forecast_days (length days) \<and>
            (\<forall>i < length (forecast r). aggregate_day (days ! i) = Inr (forecast r ! i))) \<and>
         (\<forall>d. py_int forecast_days = Inr d \<longrightarrow>
            resolved_days forecast_days (length days) = nat (min (max d 1) (int (length days)))) \<and>
         (\<forall>e. py_int forecast_days = Inl e \<longrightarrow>
            resolved_days forecast_days (length days) = min 5 (length days))"
proof -
  let ?n = "resolved_days forecast_days (length days)"
  have o: "outcome (get_weather_data http loc forecast_days) =
           bind (traverse aggregate_day (take ?n days))
             (\<lambda>fc. Inr (Some \<lparr>location = s, forecast = fc\<rparr>))"
    using assms by (rule outcome_of_list)
  have "length (forecast r) = ?n \<and>
            (\<forall>i < length (forecast r). aggregate_day (days ! i) = Inr (forecast r ! i))"
    if "outcome (get_weather_data http loc forecast_days) = Inr (Some r)" for r
  proof -
    from that o obtain fc where fc: "traverse aggregate_day (take ?n days) = Inr fc"
      and r: "r = \<lparr>location = s, forecast = fc\<rparr>"
      by (auto simp: bind_Inr_iff)
    have "?n \<le> length days"
      using resolved_days_bounds [of "length days" forecast_days] assms(6) by simp
    with traverse_Inr [OF fc] r show ?thesis
      by (simp add: min_absorb2)
  qed
  with o show ?thesis
    by (simp add: resolved_days_def)
qed

lemma example_weather: "py_get example_body (ascii ''weather'') = Inr (PList example_days)"
  by (simp add: example_body_def ascii_def)

lemma example_location:
  "strip (ascii '' New York '') \<noteq> []"
  "quote (strip (ascii '' New York '')) = Inr (ascii ''New%20York'')"
  by code_simp+

lemma example_days_length: "example_days \<noteq> []" "length example_days = 3"
  by (simp_all add: example_days_def)

lemma example_call:
  "outcome (get_weather_data (\<lambda>u. Inr example_body) (PStr (ascii '' New York '')) (PInt 2)) =
     Inr (Some \<lparr>location = ascii '' New York '',
       forecast =
         [\<lparr>date = PStr (ascii ''2024-05-01''), temp = None, humidity = Some 60,
           wind = Some 25, precipitation = None\<rparr>,
          \<lparr>date = PStr (ascii ''2024-05-02''), temp = None, humidity = Some 60,
           wind = Some 25, precipitation = None\<rparr>]\<rparr>)"
proof -
  have h: "(\<lambda>u. Inr example_body) (url_of (ascii ''New%20York'')) = Inr example_body"
    by simp
  have n: "resolved_days (PInt 2) 3 = 2"
    by (simp add: resolved_days_def)
  have "take 2 example_days = [example_day (ascii ''2024-05-01''), example_day (ascii ''2024-05-02'')]"
    by (simp add: example_days_def)
  then show ?thesis
    using outcome_of_list [OF refl example_location h example_weather example_days_length(1),
      of "PInt 2"]
    by (simp add: example_days_length n example_day_reduced)
qed

theorem forecast_length_witness:
  "outcome (get_weather_data (\<lambda>u. Inr example_body) (PStr (ascii '' New York '')) (PInt 2)) =
     Inr (Some \<lparr>location = ascii '' New York '',
       forecast =
         [\<lparr>date = PStr (ascii ''2024-05-01''), temp = None, humidity = Some 60,
           wind = Some 25, precipitation = None\<rparr>,
          \<lparr>date = PStr (ascii ''2024-05-02''), temp = None, humidity = Some 60,
           wind = Some 25, precipitation = None\<rparr>]\<rparr>) \<and>
   resolved_days (PInt 2) 3 = 2 \<and> resolved_days (PStr (ascii ''all'')) 3 = 3 \<and>
   resolved_days (PInt 0) 3 = 1 \<and> resolved_days (PInt 9) 3 = 3"
proof -
  have h: "(\<lambda>u. Inr example_body) (url_of (ascii ''New%20York'')) = Inr example_body"
    by simp
  note th = forecast_length [OF refl example_location h example_weather example_days_length(1),
      of "PInt 2"]
  have n: "resolved_days (PInt 2) 3 = 2"
    by (simp add: resolved_days_def)
  have "take 2 example_days = [example_day (ascii ''2024-05-01''), example_day (ascii ''2024-05-02'')]"
    by (simp add: example_days_def)
  then have o: "outcome (get_weather_data (\<lambda>u. Inr example_body) (PStr (ascii '' New York '')) (PInt 2)) =
     Inr (Some \<lparr>location = ascii '' New York '',
       forecast =
         [\<lparr>date = PStr (ascii ''2024-05-01''), temp = None, humidity = Some 60,
           wind = Some 25, precipitation = None\<rparr>,
          \<lparr>date = PStr (ascii ''2024-05-02''), temp = None, humidity = Some 60,
           wind = Some 25, precipitation = None\<rparr>]\<rparr>)"
    using th [THEN conjunct1] by (simp add: example_days_length n example_day_reduced)
  have "int_of_str (ascii ''all'') = None"
    by code_simp
  then have "resolved_days (PStr (ascii ''all'')) 3 = 3"
    by (simp add: resolved_days_def)
  with o n show ?thesis
    by (simp add: resolved_days_def)
qed

text \<open>
  Claim C7, as amended. The claim as stated, for every decoded body, fails for a body
  that is no object: see the counterexample at the end. When the decoded body is an
  object in which the \<^verbatim>\<open>weather\<close> key is absent, or maps to an empty list or to any other
  value that is false in a condition, the call returns \<^verbatim>\<open>None\<close> (and prints the
  diagnostic of an unexpected shape).
\<close>

theorem missing_weather_returns_none:
  assumes "loc = PStr s" and "strip s \<noteq> []" and "quote (strip s) = Inr q"
    and "http (url_of q) = Inr (PDict kvs)"
    and "map_of kvs (ascii ''weather'') = None \<or>
         (\<exists>w. map_of kvs (ascii ''weather'') = Some w \<and> \<not> py_truthy w)"
  shows "outcome (get_weather_data http loc forecast_days) = Inr None \<and>
         printed (get_weather_data http loc forecast_days) = [UnexpectedShape] \<and>
         requests (get_weather_data http loc forecast_days) = [url_of q]"
proof -
  have "reduce_body s forecast_days (PDict kvs) = ([UnexpectedShape], Inr None)"
    using assms(5) by (auto simp: reduce_body_def or_empty_def)
  then show ?thesis
    using assms(1-4) get_weather_data_body [of loc s q http "PDict kvs" forecast_days]
    by (simp add: url_of_def)
qed

theorem missing_weather_returns_none_witness:
  "outcome (get_weather_data (\<lambda>u. Inr (PDict [(ascii ''weather'', PList [])]))
      (PStr (ascii '' New York '')) (PInt 2)) = Inr None \<and>
   outcome (get_weather_data (\<lambda>u. Inr (PDict [(ascii ''current_condition'', PList [])]))
      (PStr (ascii '' New York '')) (PInt 2)) = Inr None \<and>
   outcome (get_weather_data (\<lambda>u. Inr (PDict [(ascii ''weather'', PInt 0)]))
      (PStr (ascii '' New York '')) (PInt 2)) = Inr None"
proof -
  have a: "map_of [(ascii ''weather'', PList [])] (ascii ''weather'') = None \<or>
     (\<exists>w. map_of [(ascii ''weather'', PList [])] (ascii ''weather'') = Some w \<and> \<not> py_truthy w)"
    by simp
  have b: "map_of [(ascii ''current_condition'', PList [])] (ascii ''weather'') = None \<or>
     (\<exists>w. map_of [(ascii ''current_condition'', PList [])] (ascii ''weather'') = Some w \<and>
          \<not> py_truthy w)"
    by (simp add: ascii_def)
  have c: "map_of [(ascii ''weather'', PInt 0)] (ascii ''weather'') = None \<or>
     (\<exists>w. map_of [(ascii ''weather'', PInt 0)] (ascii ''weather'') = Some w \<and> \<not> py_truthy w)"
    by simp
  show ?thesis
    using missing_weather_returns_none [OF refl example_location _ a, of "\<lambda>u. Inr (PDict [(ascii ''weather'', PList [])])" "PInt 2"]
      missing_weather_returns_none [OF refl example_location _ b, of "\<lambda>u. Inr (PDict [(ascii ''current_condition'', PList [])])" "PInt 2"]
      missing_weather_returns_none [OF refl example_location _ c, of "\<lambda>u. Inr (PDict [(ascii ''weather'', PInt 0)])" "PInt 2"]
    by simp
qed

text \<open>
  Claim C8. In every result the call returns, the \<^verbatim>\<open>location\<close> field is the caller's string
  as given, not trimmed, and the one URL requested holds the trimmed string percent
  encoded, between \<^verbatim>\<open>https://wttr.in/\<close> and \<^verbatim>\<open>?format=j1\<close>.
\<close>

theorem location_verbatim:
  assumes "outcome (get_weather_data http loc forecast_days) = Inr (Some r)"
  shows "\<exists>s q. loc = PStr s \<and> location r = s \<and> quote (strip s) = Inr q \<and>
           requests (get_weather_data http loc forecast_days) =
             [ascii ''https://wttr.in/'' @ q @ ascii ''?format=j1'']"
proof -
  from get_weather_data_Some [OF assms] obtain s q data msgs where
    a: "loc = PStr s" "quote (strip s) = Inr q"
       "reduce_body s forecast_days data = (msgs, Inr (Some r))"
       "requests (get_weather_data http loc forecast_days) =
          [ascii ''https://wttr.in/'' @ q @ ascii ''?format=j1'']"
    by blast
  from reduce_body_Some_list [OF a(3)] have "location r = s"
    by auto
  with a show ?thesis by blast
qed

theorem location_verbatim_witness:
  "location \<lparr>location = ascii '' New York '',
       forecast =
         [\<lparr>date = PStr (ascii ''2024-05-01''), temp = None, humidity = Some 60,
           wind = Some 25, precipitation = None\<rparr>,
          \<lparr>date = PStr (ascii ''2024-05-02''), temp = None, humidity = Some 60,
           wind = Some 25, precipitation = None\<rparr>]\<rparr> = ascii '' New York '' \<and>
   requests (get_weather_data (\<lambda>u. Inr example_body) (PStr (ascii '' New York '')) (PInt 2)) =
     [ascii ''https://wttr.in/New%20York?format=j1'']"
proof -
  from location_verbatim [OF example_call] obtain s q where
    a: "PStr (ascii '' New York '') = PStr s" "quote (strip s) = Inr q"
       "requests (get_weather_data (\<lambda>u. Inr example_body) (PStr (ascii '' New York '')) (PInt 2)) =
          [ascii ''https://wttr.in/'' @ q @ ascii ''?format=j1'']"
    by blast
  from a(1,2) have "q = ascii ''New%20York''"
    using example_location(2) by simp
  with a(3) show ?thesis
    by (simp add: ascii_def)
qed

text \<open>
  Claim C10. Whenever the call returns a result, the body it decoded holds a list of
  daily entries under \<^verbatim>\<open>weather\<close>, and the forecast list of the result has at least one
  entry and at most as many as that list.
\<close>

theorem forecast_nonempty:
  assumes "outcome (get_weather_data http loc forecast_days) = Inr (Some r)"
  shows "\<exists>url data days.
           requests (get_weather_data http loc forecast_days) = [url] \<and>
           http url = Inr data \<and> py_get data (ascii ''weather'') = Inr (PList days) \<and>
           1 \<le> length (forecast r) \<and> length (forecast r) \<le> length days"
proof -
  from get_weather_data_Some [OF assms] obtain s q data msgs where
    a: "http (ascii ''https://wttr.in/'' @ q @ ascii ''?format=j1'') = Inr data"
       "reduce_body s forecast_days data = (msgs, Inr (Some r))"
       "requests (get_weather_data http loc forecast_days) =
          [ascii ''https://wttr.in/'' @ q @ ascii ''?format=j1'']"
    by blast
  from reduce_body_Some_list [OF a(2)] obtain days fc where
    d: "py_get data (ascii ''weather'') = Inr (PList days)" "days \<noteq> []"
       "traverse aggregate_day
          (take (nat (min (num_days_of forecast_days) (int (length days)))) days) = Inr fc"
       "forecast r = fc"
    by auto
  have n: "nat (min (num_days_of forecast_days) (int (length days))) =
      resolved_days forecast_days (length days)"
    using d(2) by (simp add: num_days_resolved)
  have "length fc = resolved_days forecast_days (length days)"
    using traverse_Inr [OF d(3)] resolved_days_bounds [of "length days" forecast_days] d(2)
    by (simp add: n min_absorb2)
  then have "1 \<le> length (forecast r) \<and> length (forecast r) \<le> length days"
    using resolved_days_bounds [of "length days" forecast_days] d(2,4) by simp
  with a d show ?thesis by blast
qed

theorem forecast_nonempty_witness:
  "requests (get_weather_data (\<lambda>u. Inr example_body) (PStr (ascii '' New York '')) (PInt 2)) =
     [ascii ''https://wttr.in/New%20York?format=j1''] \<and>
   py_get example_body (ascii ''weather'') = Inr (PList example_days) \<and>
   length example_days = 3 \<and>
   length (forecast \<lparr>location = ascii '' New York '',
       forecast =
         [\<lparr>date = PStr (ascii ''2024-05-01''), temp = None, humidity = Some 60,
           wind = Some 25, precipitation = None\<rparr>,
          \<lparr>date = PStr (ascii ''2024-05-02''), temp = None, humidity = Some 60,
           wind = Some 25, precipitation = None\<rparr>]\<rparr>) = 2"
proof -
  from forecast_nonempty [OF example_call] obtain url data days where
    a: "requests (get_weather_data (\<lambda>u. Inr example_body) (PStr (ascii '' New York '')) (PInt 2)) = [url]"
    by blast
  have "get_weather_data (\<lambda>u. Inr example_body) (PStr (ascii '' New York '')) (PInt 2) =
    \<lparr>requests = [ascii ''https://wttr.in/'' @ ascii ''New%20York'' @ ascii ''?format=j1''],
     printed = fst (reduce_body (ascii '' New York '') (PInt 2) example_body),
     outcome = snd (reduce_body (ascii '' New York '') (PInt 2) example_body)\<rparr>"
    using example_location by (intro get_weather_data_body) simp_all
  with a have "url = ascii ''https://wttr.in/New%20York?format=j1''"
    by (simp add: ascii_def)
  with a show ?thesis
    by (simp add: example_weather example_days_length)
qed

section \<open>Coercion\<close>

lemma int_of_str_chars:
  assumes "int_of_str s = Some n"
  shows "\<forall>c \<in> set (map transform_char s). c_isspace c \<or> c = 43 \<or> c = 45 \<or> is_digit c \<or> c = 95"
proof -
  let ?ok = "\<lambda>c. c_isspace c \<or> c = 43 \<or> c = 45 \<or> is_digit c \<or> c = 95"
  define t0 where "t0 = map transform_char s"
  define t where "t = dropWhile c_isspace t0"
  define u where "u = (if t \<noteq> [] \<and> (hd t = 43 \<or> hd t = 45) then tl t else t)"
  define body where "body = takeWhile (\<lambda>c. is_digit c \<or> c = 95) u"
  define rest where "rest = dropWhile (\<lambda>c. is_digit c \<or> c = 95) u"
  from assms have r: "list_all c_isspace rest"
    unfolding int_of_str_def Let_def t0_def [symmetric] t_def [symmetric] u_def [symmetric]
      body_def [symmetric] rest_def [symmetric]
    by (simp split: if_splits)
  have "\<forall>c \<in> set body. ?ok c"
    unfolding body_def by (auto dest: set_takeWhileD)
  moreover have "\<forall>c \<in> set rest. ?ok c"
    using r by (auto simp: list_all_iff)
  moreover have "u = body @ rest"
    by (simp add: body_def rest_def)
  ultimately have uo: "\<forall>c \<in> set u. ?ok c"
    by auto
  have "\<forall>c \<in> set t. ?ok c"
  proof (cases "t \<noteq> [] \<and> (hd t = 43 \<or> hd t = 45)")
    case True
    then have "t = hd t # u"
      by (simp add: u_def)
    then have "set t = insert (hd t) (set u)"
      by (metis list.simps(15))
    with True uo show ?thesis by auto
  next
    case False
    then have "u = t" by (auto simp: u_def)
    with uo show ?thesis by simp
  qed
  moreover have "\<forall>c \<in> set (takeWhile c_isspace t0). ?ok c"
    by (auto dest: set_takeWhileD)
  moreover have "t0 = takeWhile c_isspace t0 @ t"
    by (simp add: t_def)
  ultimately have "\<forall>c \<in> set t0. ?ok c"
    by (metis Un_iff set_append)
  then show ?thesis by (simp add: t0_def)
qed

lemma int_of_str_mark:
  assumes "c \<in> set s" and "c = 46 \<or> c = 101 \<or> c = 110 \<or> c = 91 \<or> c = 123"
  shows "int_of_str s = None"
proof (cases "int_of_str s")
  case (Some n)
  have "transform_char c = c"
    using assms(2) by (auto simp: transform_char_def)
  then have "c \<in> set (map transform_char s)"
    using assms(1) by force
  with int_of_str_chars [OF Some] have "c_isspace c \<or> c = 43 \<or> c = 45 \<or> is_digit c \<or> c = 95"
    by blast
  with assms(2) show ?thesis
    by (auto simp: c_isspace_def is_digit_def)
qed simp

lemma format_repr_mark: "46 \<in> set (format_repr ds decpt) \<or> 101 \<in> set (format_repr ds decpt)"
  by (auto simp: format_repr_def Let_def)

lemma float_repr_mark: "\<exists>c \<in> set (float_repr x). c = 46 \<or> c = 101 \<or> c = 110"
proof (cases x)
  case (Finite s m)
  show ?thesis
  proof (cases "m = 0")
    case True
    with Finite show ?thesis by (simp add: ascii_def)
  next
    case False
    obtain d e where de: "shortest m 1 16 = (d, e)" by force
    obtain d' e' where de': "strip_zeros 400 d e = (d', e')" by force
    from format_repr_mark [of "digits_of d'" "int (length (digits_of d')) + e'"]
    show ?thesis
      using Finite False de de' by auto
  qed
next
  case (Infinity s)
  then show ?thesis by (simp add: ascii_def)
next
  case NaN
  then show ?thesis by (simp add: ascii_def)
qed

lemma safe_int_float: "safe_int (PFloat x) = None"
proof -
  from float_repr_mark [of x] obtain c where "c \<in> set (float_repr x)"
    "c = 46 \<or> c = 101 \<or> c = 110" by blast
  then have "int_of_str (float_repr x) = None"
    by (intro int_of_str_mark [of c]) auto
  then show ?thesis by (simp add: safe_int_def py_str_def)
qed

lemma safe_int_bool: "safe_int (PBool b) = None"
proof -
  have "int_of_str (ascii ''True'') = None" "int_of_str (ascii ''False'') = None"
    by code_simp+
  then show ?thesis by (cases b) (simp_all add: safe_int_def py_str_def)
qed

lemma safe_int_container: "safe_int (PList xs) = None" "safe_int (PDict kvs) = None"
proof -
  have "int_of_str (py_repr (PList xs)) = None"
    by (rule int_of_str_mark [of 91]) simp_all
  moreover have "int_of_str (py_repr (PDict kvs)) = None"
    by (rule int_of_str_mark [of 123]) simp_all
  ultimately show "safe_int (PList xs) = None" "safe_int (PDict kvs) = None"
    by (simp_all add: safe_int_def py_str_def)
qed

text \<open>
  Claim C9. \<^verbatim>\<open>_safe_int v\<close> gives an integer exactly when \<^verbatim>\<open>str(v)\<close> reads as an integer
  literal, and then that integer. A float is printed with a point, an exponent,
  \<^verbatim>\<open>inf\<close> or \<^verbatim>\<open>nan\<close>, and a boolean as \<^verbatim>\<open>True\<close> or \<^verbatim>\<open>False\<close>, so both coerce to \<^verbatim>\<open>None\<close>; an
  hourly entry whose value is a float (50.5, say) or a boolean adds nothing to the valid
  readings the humidity and wind aggregates are computed from.
\<close>

theorem safe_int_literal:
  "(safe_int v = Some n \<longleftrightarrow> int_of_str (py_str v) = Some n) \<and>
   safe_int (PFloat x) = None \<and> safe_int (PBool b) = None \<and>
   (\<forall>h hs rs. (py_get h key = Inr (PFloat x) \<or> py_get h key = Inr (PBool b)) \<and>
        readings key hs = Inr rs \<longrightarrow>
      (\<exists>rs'. readings key (h # hs) = Inr rs' \<and> valid rs' = valid rs))"
  by (auto simp: safe_int_def [symmetric] safe_int_float safe_int_bool valid_def)


theorem safe_int_literal_witness:
  "safe_int (PFloat (Finite False (101 / 2))) = None \<and> safe_int (PBool True) = None \<and>
   (safe_int (PStr (ascii ''50'')) = Some 50) = (int_of_str (ascii ''50'') = Some 50) \<and>
   (\<exists>rs'. readings (ascii ''humidity'')
       (hour_entry (PFloat (Finite False (101 / 2))) (PBool True) # example_hourly) = Inr rs' \<and>
     valid rs' = [50, 60, 70])"
proof -
  note th = safe_int_literal [of "PStr (ascii ''50'')" 50 "Finite False (101 / 2)" True "ascii ''humidity''"]
  have g: "py_get (hour_entry (PFloat (Finite False (101 / 2))) (PBool True)) (ascii ''humidity'') =
      Inr (PFloat (Finite False (101 / 2)))"
    by (simp add: hour_entry_def)
  from th g example_humidities
  have "\<exists>rs'. readings (ascii ''humidity'')
       (hour_entry (PFloat (Finite False (101 / 2))) (PBool True) # example_hourly) = Inr rs' \<and>
     valid rs' = valid [Some 50, Some 60, Some 70]"
    by blast
  then show ?thesis
    using th by (simp add: valid_def py_str_def)
qed

section \<open>Failures\<close>

lemma bind_case: "bind m f = (case m of Inl e \<Rightarrow> Inl e | Inr x \<Rightarrow> f x)"
  by (cases m) simp_all

lemma py_get_override:
  "key \<noteq> k1 \<Longrightarrow> key \<noteq> k2 \<Longrightarrow>
   py_get (PDict ((k1, v1) # (k2, v2) # kvs)) key = py_get (PDict kvs) key"
  by simp

text \<open>
  Claim C5. The values of \<^verbatim>\<open>avgtempC\<close> and \<^verbatim>\<open>totalprecipMM\<close> never make the reduction of a
  day raise and never change the rest of its output: whatever the two values are, the
  day reduces as it does without them, except that the temperature field is what
  \<^verbatim>\<open>_safe_int\<close> gives for the first and the precipitation field what \<^verbatim>\<open>_safe_float\<close>
  gives for the second, \<^verbatim>\<open>None\<close> when the value cannot be coerced, as for the
  string \<^verbatim>\<open>n/a\<close>.
\<close>

theorem coercion_failure_tolerated:
  "aggregate_day (PDict ((ascii ''avgtempC'', t) # (ascii ''totalprecipMM'', p) # kvs)) =
     (case aggregate_day (PDict kvs) of
        Inl e \<Rightarrow> Inl e
      | Inr r \<Rightarrow> Inr (r\<lparr>temp := safe_int t, precipitation := safe_float p\<rparr>)) \<and>
   (\<forall>day r v. aggregate_day day = Inr r \<and> py_get day (ascii ''avgtempC'') = Inr v \<longrightarrow>
      temp r = safe_int v) \<and>
   (\<forall>day r v. aggregate_day day = Inr r \<and> py_get day (ascii ''totalprecipMM'') = Inr v \<longrightarrow>
      precipitation r = safe_float v) \<and>
   safe_int (PStr (ascii ''n/a'')) = None \<and> safe_float (PStr (ascii ''n/a'')) = None"
proof -
  have k: "ascii ''date'' \<noteq> ascii ''avgtempC''" "ascii ''date'' \<noteq> ascii ''totalprecipMM''"
    "ascii ''hourly'' \<noteq> ascii ''avgtempC''" "ascii ''hourly'' \<noteq> ascii ''totalprecipMM''"
    "ascii ''totalprecipMM'' \<noteq> ascii ''avgtempC''"
    by (simp_all add: ascii_def)
  have g: "py_get (PDict ((ascii ''avgtempC'', t) # (ascii ''totalprecipMM'', p) # kvs)) (ascii ''date'') =
        py_get (PDict kvs) (ascii ''date'')"
      "py_get (PDict ((ascii ''avgtempC'', t) # (ascii ''totalprecipMM'', p) # kvs)) (ascii ''hourly'') =
        py_get (PDict kvs) (ascii ''hourly'')"
      "py_get (PDict ((ascii ''avgtempC'', t) # (ascii ''totalprecipMM'', p) # kvs)) (ascii ''avgtempC'') =
        Inr t"
      "py_get (PDict ((ascii ''avgtempC'', t) # (ascii ''totalprecipMM'', p) # kvs)) (ascii ''totalprecipMM'') =
        Inr p"
    using k by simp_all
  have a: "aggregate_day (PDict ((ascii ''avgtempC'', t) # (ascii ''totalprecipMM'', p) # kvs)) =
     (case aggregate_day (PDict kvs) of
        Inl e \<Rightarrow> Inl e
      | Inr r \<Rightarrow> Inr (r\<lparr>temp := safe_int t, precipitation := safe_float p\<rparr>))"
    unfolding aggregate_day_def g
    by (simp add: bind_case split: sum.splits)
  have b: "temp r = safe_int v"
    if "aggregate_day day = Inr r" "py_get day (ascii ''avgtempC'') = Inr v" for day r v
    using that unfolding aggregate_day_Inr by auto
  have c: "precipitation r = safe_float v"
    if "aggregate_day day = Inr r" "py_get day (ascii ''totalprecipMM'') = Inr v" for day r v
    using that unfolding aggregate_day_Inr by auto
  from a b c not_available show ?thesis
    by blast
qed

lemma plain_day_reduced:
  "aggregate_day (PDict [(ascii ''avgtempC'', PStr (ascii ''21'')),
       (ascii ''totalprecipMM'', PStr (ascii ''0.5'')), (ascii ''hourly'', PList example_hourly)]) =
     Inr \<lparr>date = PNone, temp = Some 21, humidity = Some 60, wind = Some 25,
          precipitation = Some (Finite False (1 / 2))\<rparr>"
proof -
  let ?day = "PDict [(ascii ''avgtempC'', PStr (ascii ''21'')),
       (ascii ''totalprecipMM'', PStr (ascii ''0.5'')), (ascii ''hourly'', PList example_hourly)]"
  have g: "py_get ?day (ascii ''date'') = Inr PNone"
    "py_get ?day (ascii ''avgtempC'') = Inr (PStr (ascii ''21''))"
    "py_get ?day (ascii ''totalprecipMM'') = Inr (PStr (ascii ''0.5''))"
    "py_get ?day (ascii ''hourly'') = Inr (PList example_hourly)"
    by (simp_all add: ascii_def)
  have "safe_int (PStr (ascii ''21'')) = Some 21"
    "safe_float (PStr (ascii ''0.5'')) = Some (Finite False (1 / 2))"
    by code_simp+
  then show ?thesis
    unfolding aggregate_day_def g
    by (simp add: example_hourly_iter example_humidities
        example_winds example_average valid_def maximum_def)
qed

theorem coercion_failure_tolerated_witness:
  "aggregate_day (PDict [(ascii ''avgtempC'', PStr (ascii ''21'')),
       (ascii ''totalprecipMM'', PStr (ascii ''0.5'')), (ascii ''hourly'', PList example_hourly)]) =
     Inr \<lparr>date = PNone, temp = Some 21, humidity = Some 60, wind = Some 25,
          precipitation = Some (Finite False (1 / 2))\<rparr> \<and>
   aggregate_day (PDict [(ascii ''avgtempC'', PStr (ascii ''n/a'')),
       (ascii ''totalprecipMM'', PStr (ascii ''n/a'')),
       (ascii ''avgtempC'', PStr (ascii ''21'')),
       (ascii ''totalprecipMM'', PStr (ascii ''0.5'')), (ascii ''hourly'', PList example_hourly)]) =
     Inr \<lparr>date = PNone, temp = None, humidity = Some 60, wind = Some 25,
          precipitation = None\<rparr>"
  using coercion_failure_tolerated [of "PStr (ascii ''n/a'')" "PStr (ascii ''n/a'')"
      "[(ascii ''avgtempC'', PStr (ascii ''21'')),
       (ascii ''totalprecipMM'', PStr (ascii ''0.5'')), (ascii ''hourly'', PList example_hourly)]"]
  by (simp add: plain_day_reduced)

section \<open>The range of a float\<close>





section \<open>Exceptions that reach the caller\<close>












lemma example_request:
  "outcome (get_weather_data (\<lambda>u. Inr data) (PStr (ascii '' New York '')) forecast_days) =
     snd (reduce_body (ascii '' New York '') forecast_days data)"
  using get_weather_data_body [of "PStr (ascii '' New York '')" "ascii '' New York ''"
      "ascii ''New%20York''" "\<lambda>u. Inr data" data forecast_days] example_location
  by simp










text \<open>
  Claim C7 as stated, for every decoded body, fails where the body is no object: a body
  that is \<^verbatim>\<open>null\<close> or a string has no \<^verbatim>\<open>weather\<close> key, and \<^verbatim>\<open>data.get\<close> raises AttributeError
  outside the \<^verbatim>\<open>try\<close>, so the call does not return \<^verbatim>\<open>None\<close>.
\<close>

theorem missing_weather_returns_none_counterexample:
  "outcome (get_weather_data (\<lambda>u. Inr PNone) (PStr (ascii '' New York '')) (PInt 2)) =
     Inl AttributeError \<and>
   outcome (get_weather_data (\<lambda>u. Inr (PStr (ascii ''Unknown location'')))
     (PStr (ascii '' New York '')) (PInt 2)) = Inl AttributeError"
  by (simp add: example_request reduce_body_def)

end
